theory Spec2Isabelle
  imports Main "HOL-Library.AList"
begin

section \<open>The object graph and Go's reflect package\<close>

text \<open>
  \<^verbatim>\<open>fieldpath/value.go\<close> is a thin layer over the package \<^verbatim>\<open>reflect\<close> of the Go
  standard library: every method of \<^verbatim>\<open>reflectValue\<close> and \<^verbatim>\<open>mapEntry\<close> is one or two
  calls of methods of \<^verbatim>\<open>reflect.Value\<close>. This section models those methods, as the
  package documents them, over an explicit store:
  \<^item> Go variables that pointers and slices refer to (\<open>vars\<close>), each holding a value;
    a location is an address and a path of field and element indices into that value;
  \<^item> map objects (\<open>hmaps\<close>): a Go map value is a reference to one of them, or nil;
  \<^item> the local variables of type \<^verbatim>\<open>reflect.Value\<close> whose address \<^verbatim>\<open>mapEntry\<close> takes
    (\<open>cells\<close>); a cell is allocated at the end of the list and never written again.

  The kinds covered are bool, int, string, pointer, map, slice, struct and the empty
  interface; types are compared structurally, so named types, interfaces with methods,
  arrays as types, channels, functions and embedded fields are left out. A panic is an
  error value. \<open>Fault\<close> is the result of reading an address that is not allocated or
  a value that does not have the shape of its type: no Go program reaches it.
\<close>

datatype kind = KInvalid | KBool | KInt | KString | KPtr | KMap | KSlice | KStruct | KInterface

datatype gtype =
    TBool | TInt | TString
  | TPtr gtype
  | TMap gtype gtype
  | TSlice gtype
  | TStruct "(string \<times> gtype) list"
  | TInterface

type_synonym addr = nat
type_synonym loc = "addr \<times> nat list"

datatype gval =
    VBool bool | VInt int | VString string
  | VPtr "loc option"
  | VMap "addr option"
  | VSlice "(addr \<times> nat \<times> nat) option"
  | VArray "gval list"
  | VStruct "gval list"
  | VIface "(gtype \<times> gval) option"

datatype error = ValueError string kind | Panic string | Fault

datatype target = Addr loc | Copy gval

text \<open>
  A \<^verbatim>\<open>reflect.Value\<close>: the zero Value, or a type, the data it refers to and the
  read-only flag (set on values obtained through unexported struct fields). A Value is
  addressable when it refers to a location; otherwise it holds a copy.
\<close>

datatype reflect_Value = ZeroValue | Val gtype target bool

record store =
  vars :: "addr \<rightharpoonup> gval"
  hmaps :: "addr \<rightharpoonup> (gval \<times> gval) list"
  cells :: "reflect_Value list"

fun type_Kind :: "gtype \<Rightarrow> kind" where
  "type_Kind TBool = KBool"
| "type_Kind TInt = KInt"
| "type_Kind TString = KString"
| "type_Kind (TPtr t) = KPtr"
| "type_Kind (TMap k e) = KMap"
| "type_Kind (TSlice t) = KSlice"
| "type_Kind (TStruct fs) = KStruct"
| "type_Kind TInterface = KInterface"

fun type_Elem :: "gtype \<Rightarrow> error + gtype" where
  "type_Elem (TPtr t) = Inr t"
| "type_Elem (TMap k e) = Inr e"
| "type_Elem (TSlice t) = Inr t"
| "type_Elem t = Inl (Panic ''reflect: Elem of invalid type'')"

fun gval_at :: "gval \<Rightarrow> nat list \<Rightarrow> gval option" where
  "gval_at g [] = Some g"
| "gval_at (VStruct fs) (i # p) = (if i < length fs then gval_at (fs ! i) p else None)"
| "gval_at (VArray es) (i # p) = (if i < length es then gval_at (es ! i) p else None)"
| "gval_at g (i # p) = None"

fun gval_upd :: "gval \<Rightarrow> nat list \<Rightarrow> gval \<Rightarrow> gval option" where
  "gval_upd g [] x = Some x"
| "gval_upd (VStruct fs) (i # p) x =
     (if i < length fs
      then (case gval_upd (fs ! i) p x of None \<Rightarrow> None | Some y \<Rightarrow> Some (VStruct (fs[i := y])))
      else None)"
| "gval_upd (VArray es) (i # p) x =
     (if i < length es
      then (case gval_upd (es ! i) p x of None \<Rightarrow> None | Some y \<Rightarrow> Some (VArray (es[i := y])))
      else None)"
| "gval_upd g (i # p) x = None"

definition load :: "store \<Rightarrow> loc \<Rightarrow> error + gval" where
  "load s l =
     (case vars s (fst l) of
        None \<Rightarrow> Inl Fault
      | Some g \<Rightarrow> (case gval_at g (snd l) of None \<Rightarrow> Inl Fault | Some x \<Rightarrow> Inr x))"

definition store_at :: "store \<Rightarrow> loc \<Rightarrow> gval \<Rightarrow> error + store" where
  "store_at s l x =
     (case vars s (fst l) of
        None \<Rightarrow> Inl Fault
      | Some g \<Rightarrow>
          (case gval_upd g (snd l) x of
             None \<Rightarrow> Inl Fault
           | Some g' \<Rightarrow> Inr (s\<lparr>vars := (vars s)(fst l \<mapsto> g')\<rparr>)))"

fun target_read :: "store \<Rightarrow> target \<Rightarrow> error + gval" where
  "target_read s (Copy g) = Inr g"
| "target_read s (Addr l) = load s l"

text \<open>The runtime panics when it hashes a map key whose dynamic type is a slice or a map.\<close>

fun hashable :: "gval \<Rightarrow> bool" where
  "hashable (VSlice x) = False"
| "hashable (VMap m) = False"
| "hashable (VArray es) = list_all hashable es"
| "hashable (VStruct fs) = list_all hashable fs"
| "hashable (VIface None) = True"
| "hashable (VIface (Some (t, g))) = hashable g"
| "hashable g = True"

definition IsExported :: "string \<Rightarrow> bool" where
  "IsExported nm =
     (case nm of [] \<Rightarrow> False | c # cs \<Rightarrow> (65::nat) \<le> of_char c \<and> (of_char c :: nat) \<le> 90)"

definition flag_ro :: "reflect_Value \<Rightarrow> bool" where
  "flag_ro v = (case v of ZeroValue \<Rightarrow> False | Val t tg r \<Rightarrow> r)"

text \<open>
  \<^verbatim>\<open>assignTo\<close>: the value of \<open>v\<close> as a value of type \<open>dst\<close>. A value is assignable to
  its own type, and every value to the empty interface, which boxes it with its type.
\<close>

definition assignTo :: "store \<Rightarrow> reflect_Value \<Rightarrow> gtype \<Rightarrow> error + gval" where
  "assignTo s v dst =
     (case v of
        ZeroValue \<Rightarrow> Inl (Panic ''runtime error: invalid memory address or nil pointer dereference'')
      | Val t tg r \<Rightarrow>
          if dst = t then target_read s tg
          else if dst = TInterface
          then (case target_read s tg of Inl e \<Rightarrow> Inl e | Inr g \<Rightarrow> Inr (VIface (Some (t, g))))
          else Inl (Panic ''reflect: value is not assignable to type''))"

definition Value_IsValid :: "reflect_Value \<Rightarrow> bool" where
  "Value_IsValid v = (case v of ZeroValue \<Rightarrow> False | Val t tg r \<Rightarrow> True)"

definition Value_Kind :: "reflect_Value \<Rightarrow> kind" where
  "Value_Kind v = (case v of ZeroValue \<Rightarrow> KInvalid | Val t tg r \<Rightarrow> type_Kind t)"

definition Value_Type :: "reflect_Value \<Rightarrow> error + gtype" where
  "Value_Type v =
     (case v of
        ZeroValue \<Rightarrow> Inl (ValueError ''reflect.Value.Type'' KInvalid)
      | Val t tg r \<Rightarrow> Inr t)"

text \<open>
  \<^verbatim>\<open>Interface\<close> returns the current value as an \<^verbatim>\<open>interface{}\<close>: nil, or a dynamic
  type and a value. A Value of kind Interface yields the interface value it holds.
\<close>

fun unbox :: "gval \<Rightarrow> error + (gtype \<times> gval) option" where
  "unbox (VIface x) = Inr x"
| "unbox g = Inl Fault"

definition Value_Interface :: "store \<Rightarrow> reflect_Value \<Rightarrow> error + (gtype \<times> gval) option" where
  "Value_Interface s v =
     (case v of
        ZeroValue \<Rightarrow> Inl (ValueError ''reflect.Value.Interface'' KInvalid)
      | Val t tg r \<Rightarrow>
          if r then Inl (Panic ''reflect.Value.Interface: cannot return value obtained from unexported field or method'')
          else (case target_read s tg of
                  Inl e \<Rightarrow> Inl e
                | Inr g \<Rightarrow> if t = TInterface then unbox g else Inr (Some (t, g))))"

definition Value_Set :: "store \<Rightarrow> reflect_Value \<Rightarrow> reflect_Value \<Rightarrow> error + store" where
  "Value_Set s v x =
     (case v of
        ZeroValue \<Rightarrow> Inl (ValueError ''reflect.Value.Set'' KInvalid)
      | Val t tg r \<Rightarrow>
          if r then Inl (Panic ''reflect: reflect.Value.Set using value obtained using unexported field'')
          else (case tg of
                  Copy g \<Rightarrow> Inl (Panic ''reflect: reflect.Value.Set using unaddressable value'')
                | Addr l \<Rightarrow>
                    (case x of
                       ZeroValue \<Rightarrow> Inl (ValueError ''reflect.Value.Set'' KInvalid)
                     | Val tx xg rx \<Rightarrow>
                         if rx then Inl (Panic ''reflect: reflect.Value.Set using value obtained using unexported field'')
                         else (case assignTo s x t of
                                 Inl e \<Rightarrow> Inl e
                               | Inr g \<Rightarrow> store_at s l g))))"

fun maplen :: "store \<Rightarrow> gval \<Rightarrow> error + int" where
  "maplen s (VMap None) = Inr 0"
| "maplen s (VMap (Some a)) =
     (case hmaps s a of None \<Rightarrow> Inl Fault | Some al \<Rightarrow> Inr (int (length (remdups (map fst al)))))"
| "maplen s g = Inl Fault"

fun slicelen :: "gval \<Rightarrow> error + int" where
  "slicelen (VSlice None) = Inr 0"
| "slicelen (VSlice (Some (a, off, n))) = Inr (int n)"
| "slicelen g = Inl Fault"

fun stringlen :: "gval \<Rightarrow> error + int" where
  "stringlen (VString str) = Inr (int (length str))"
| "stringlen g = Inl Fault"

definition Value_Len :: "store \<Rightarrow> reflect_Value \<Rightarrow> error + int" where
  "Value_Len s v =
     (case v of
        ZeroValue \<Rightarrow> Inl (ValueError ''reflect.Value.Len'' KInvalid)
      | Val t tg r \<Rightarrow>
          if type_Kind t = KSlice
          then (case target_read s tg of Inl e \<Rightarrow> Inl e | Inr g \<Rightarrow> slicelen g)
          else if type_Kind t = KMap
          then (case target_read s tg of Inl e \<Rightarrow> Inl e | Inr g \<Rightarrow> maplen s g)
          else if type_Kind t = KString
          then (case target_read s tg of Inl e \<Rightarrow> Inl e | Inr g \<Rightarrow> stringlen g)
          else Inl (ValueError ''reflect.Value.Len'' (type_Kind t)))"

fun nilness :: "gval \<Rightarrow> error + bool" where
  "nilness (VPtr p) = Inr (p = None)"
| "nilness (VMap m) = Inr (m = None)"
| "nilness (VSlice x) = Inr (x = None)"
| "nilness (VIface x) = Inr (x = None)"
| "nilness g = Inl Fault"

definition shape_ok :: "kind \<Rightarrow> gval \<Rightarrow> bool" where
  "shape_ok k g =
     (case g of
        VBool b \<Rightarrow> k = KBool | VInt i \<Rightarrow> k = KInt | VString str \<Rightarrow> k = KString
      | VPtr p \<Rightarrow> k = KPtr | VMap m \<Rightarrow> k = KMap | VSlice x \<Rightarrow> k = KSlice
      | VArray es \<Rightarrow> False | VStruct fs \<Rightarrow> k = KStruct | VIface x \<Rightarrow> k = KInterface)"

definition Value_IsNil :: "store \<Rightarrow> reflect_Value \<Rightarrow> error + bool" where
  "Value_IsNil s v =
     (case v of
        ZeroValue \<Rightarrow> Inl (ValueError ''reflect.Value.IsNil'' KInvalid)
      | Val t tg r \<Rightarrow>
          if type_Kind t = KMap \<or> type_Kind t = KPtr \<or> type_Kind t = KInterface \<or> type_Kind t = KSlice
          then (case target_read s tg of
                  Inl e \<Rightarrow> Inl e
                | Inr g \<Rightarrow> if shape_ok (type_Kind t) g then nilness g else Inl Fault)
          else Inl (ValueError ''reflect.Value.IsNil'' (type_Kind t)))"

text \<open>
  \<^verbatim>\<open>Elem\<close>: the value an interface contains (a copy) or a pointer points to
  (addressable). It panics on every other kind, and returns the zero Value, without
  panicking, when the interface or the pointer is nil.
\<close>

fun Elem_iface :: "bool \<Rightarrow> gval \<Rightarrow> error + reflect_Value" where
  "Elem_iface r (VIface None) = Inr ZeroValue"
| "Elem_iface r (VIface (Some (dt, g))) = Inr (Val dt (Copy g) r)"
| "Elem_iface r g = Inl Fault"

fun Elem_ptr :: "gtype \<Rightarrow> bool \<Rightarrow> gval \<Rightarrow> error + reflect_Value" where
  "Elem_ptr et r (VPtr None) = Inr ZeroValue"
| "Elem_ptr et r (VPtr (Some l)) = Inr (Val et (Addr l) r)"
| "Elem_ptr et r g = Inl Fault"

definition Value_Elem :: "store \<Rightarrow> reflect_Value \<Rightarrow> error + reflect_Value" where
  "Value_Elem s v =
     (case v of
        ZeroValue \<Rightarrow> Inl (ValueError ''reflect.Value.Elem'' KInvalid)
      | Val t tg r \<Rightarrow>
          (case t of
             TInterface \<Rightarrow> (case target_read s tg of Inl e \<Rightarrow> Inl e | Inr g \<Rightarrow> Elem_iface r g)
           | TPtr et \<Rightarrow> (case target_read s tg of Inl e \<Rightarrow> Inl e | Inr g \<Rightarrow> Elem_ptr et r g)
           | _ \<Rightarrow> Inl (ValueError ''reflect.Value.Elem'' (type_Kind t))))"

text \<open>
  The runtime's map operations on a map reference. Reading a nil map finds nothing,
  deleting from it does nothing, assigning to it panics.
\<close>

definition mapaccess :: "store \<Rightarrow> addr option \<Rightarrow> gval \<Rightarrow> error + gval option" where
  "mapaccess s m k =
     (if \<not> hashable k then Inl (Panic ''runtime error: hash of unhashable type'')
      else (case m of
              None \<Rightarrow> Inr None
            | Some a \<Rightarrow> (case hmaps s a of None \<Rightarrow> Inl Fault | Some al \<Rightarrow> Inr (map_of al k))))"

definition mapdelete :: "store \<Rightarrow> addr option \<Rightarrow> gval \<Rightarrow> error + store" where
  "mapdelete s m k =
     (if \<not> hashable k then Inl (Panic ''runtime error: hash of unhashable type'')
      else (case m of
              None \<Rightarrow> Inr s
            | Some a \<Rightarrow>
                (case hmaps s a of
                   None \<Rightarrow> Inl Fault
                 | Some al \<Rightarrow> Inr (s\<lparr>hmaps := (hmaps s)(a \<mapsto> AList.delete k al)\<rparr>))))"

definition mapassign :: "store \<Rightarrow> addr option \<Rightarrow> gval \<Rightarrow> gval \<Rightarrow> error + store" where
  "mapassign s m k e =
     (case m of
        None \<Rightarrow> Inl (Panic ''assignment to entry in nil map'')
      | Some a \<Rightarrow>
          if \<not> hashable k then Inl (Panic ''runtime error: hash of unhashable type'')
          else (case hmaps s a of
                  None \<Rightarrow> Inl Fault
                | Some al \<Rightarrow> Inr (s\<lparr>hmaps := (hmaps s)(a \<mapsto> AList.update k e al)\<rparr>)))"

fun map_ref :: "gval \<Rightarrow> error + addr option" where
  "map_ref (VMap m) = Inr m"
| "map_ref g = Inl Fault"

text \<open>
  \<^verbatim>\<open>MapIndex\<close>: a copy of the value stored under the key, of the map's element type;
  the zero Value when the key is absent or the map is nil.
\<close>

definition Value_MapIndex :: "store \<Rightarrow> reflect_Value \<Rightarrow> reflect_Value \<Rightarrow> error + reflect_Value" where
  "Value_MapIndex s v key =
     (case v of
        ZeroValue \<Rightarrow> Inl (ValueError ''reflect.Value.MapIndex'' KInvalid)
      | Val t tg r \<Rightarrow>
          (case t of
             TMap kt et \<Rightarrow>
               (case assignTo s key kt of
                  Inl e \<Rightarrow> Inl e
                | Inr k \<Rightarrow>
                    (case target_read s tg of
                       Inl e \<Rightarrow> Inl e
                     | Inr g \<Rightarrow>
                         (case map_ref g of
                            Inl e \<Rightarrow> Inl e
                          | Inr m \<Rightarrow>
                              (case mapaccess s m k of
                                 Inl e \<Rightarrow> Inl e
                               | Inr None \<Rightarrow> Inr ZeroValue
                               | Inr (Some e) \<Rightarrow> Inr (Val et (Copy e) (r \<or> flag_ro key))))))
           | _ \<Rightarrow> Inl (ValueError ''reflect.Value.MapIndex'' (type_Kind t))))"

text \<open>
  \<^verbatim>\<open>SetMapIndex\<close>: stores the element under the key in the map object; the zero Value
  as element deletes the key.
\<close>

definition Value_SetMapIndex ::
  "store \<Rightarrow> reflect_Value \<Rightarrow> reflect_Value \<Rightarrow> reflect_Value \<Rightarrow> error + store" where
  "Value_SetMapIndex s v key elm =
     (case v of
        ZeroValue \<Rightarrow> Inl (ValueError ''reflect.Value.SetMapIndex'' KInvalid)
      | Val t tg r \<Rightarrow>
          (case t of
             TMap kt et \<Rightarrow>
               if r then Inl (Panic ''reflect: reflect.Value.SetMapIndex using value obtained using unexported field'')
               else if \<not> Value_IsValid key then Inl (ValueError ''reflect.Value.SetMapIndex'' KInvalid)
               else if flag_ro key then Inl (Panic ''reflect: reflect.Value.SetMapIndex using value obtained using unexported field'')
               else (case assignTo s key kt of
                       Inl e \<Rightarrow> Inl e
                     | Inr k \<Rightarrow>
                         (case target_read s tg of
                            Inl e \<Rightarrow> Inl e
                          | Inr g \<Rightarrow>
                              (case map_ref g of
                                 Inl e \<Rightarrow> Inl e
                               | Inr m \<Rightarrow>
                                   if \<not> Value_IsValid elm then mapdelete s m k
                                   else if flag_ro elm then Inl (Panic ''reflect: reflect.Value.SetMapIndex using value obtained using unexported field'')
                                   else (case assignTo s elm et of
                                           Inl e \<Rightarrow> Inl e
                                         | Inr ev \<Rightarrow> mapassign s m k ev))))
           | _ \<Rightarrow> Inl (ValueError ''reflect.Value.SetMapIndex'' (type_Kind t))))"

text \<open>
  \<^verbatim>\<open>Field\<close>: field \<open>i\<close> of a struct; addressable when the struct is, read-only when
  the struct is or the field is unexported.
\<close>

fun struct_field :: "gval \<Rightarrow> nat \<Rightarrow> error + gval" where
  "struct_field (VStruct gs) i = (if i < length gs then Inr (gs ! i) else Inl Fault)"
| "struct_field g i = Inl Fault"

definition Value_Field :: "reflect_Value \<Rightarrow> int \<Rightarrow> error + reflect_Value" where
  "Value_Field v i =
     (case v of
        ZeroValue \<Rightarrow> Inl (ValueError ''reflect.Value.Field'' KInvalid)
      | Val t tg r \<Rightarrow>
          (case t of
             TStruct fs \<Rightarrow>
               if i < 0 \<or> int (length fs) \<le> i then Inl (Panic ''reflect: Field index out of range'')
               else (case tg of
                       Addr l \<Rightarrow>
                         Inr (Val (snd (fs ! nat i)) (Addr (fst l, snd l @ [nat i]))
                                  (r \<or> \<not> IsExported (fst (fs ! nat i))))
                     | Copy g \<Rightarrow>
                         (case struct_field g (nat i) of
                            Inl e \<Rightarrow> Inl e
                          | Inr x \<Rightarrow>
                              Inr (Val (snd (fs ! nat i)) (Copy x)
                                       (r \<or> \<not> IsExported (fst (fs ! nat i))))))
           | _ \<Rightarrow> Inl (ValueError ''reflect.Value.Field'' (type_Kind t))))"

section \<open>fieldpath/value.go\<close>

text \<open>
  The interface \<^verbatim>\<open>value\<close> has two implementations. \<^verbatim>\<open>reflectValue\<close> is
  \<^verbatim>\<open>reflect.Value\<close> under another name. \<^verbatim>\<open>mapEntry\<close> is a struct whose field
  \<^verbatim>\<open>elem\<close> is a pointer to a \<^verbatim>\<open>reflect.Value\<close>: an address into \<open>cells\<close>, or nil.
  Every method has a value receiver: it works on its own copy of the struct, and
  \<^verbatim>\<open>Set\<close> and \<^verbatim>\<open>Elem\<close> return that copy.
\<close>

type_synonym reflectValue = reflect_Value

record mapEntry =
  host :: reflect_Value
  key :: reflect_Value
  elem :: "addr option"
  name :: string

datatype value_iface = ReflectValue reflectValue | MapEntry mapEntry

text \<open>\<^verbatim>\<open>*this.elem\<close> and \<^verbatim>\<open>&v\<close> for a local variable \<open>v\<close> that escapes.\<close>

definition deref :: "store \<Rightarrow> addr \<Rightarrow> error + reflect_Value" where
  "deref s a = (if a < length (cells s) then Inr (cells s ! a) else Inl Fault)"

definition address_of :: "store \<Rightarrow> reflect_Value \<Rightarrow> addr \<times> store" where
  "address_of s v = (length (cells s), s\<lparr>cells := cells s @ [v]\<rparr>)"

definition reflectValue_Type :: "reflectValue \<Rightarrow> error + gtype" where
  "reflectValue_Type this = Value_Type this"

definition reflectValue_Interface :: "store \<Rightarrow> reflectValue \<Rightarrow> error + (gtype \<times> gval) option" where
  "reflectValue_Interface s this = Value_Interface s this"

definition reflectValue_Kind :: "reflectValue \<Rightarrow> kind" where
  "reflectValue_Kind this = Value_Kind this"

definition reflectValue_Set :: "store \<Rightarrow> reflectValue \<Rightarrow> reflect_Value \<Rightarrow> error + value_iface \<times> store" where
  "reflectValue_Set s this v =
     (case Value_Set s this v of Inl e \<Rightarrow> Inl e | Inr s' \<Rightarrow> Inr (ReflectValue this, s'))"

definition reflectValue_IsValid :: "reflectValue \<Rightarrow> bool" where
  "reflectValue_IsValid this = Value_IsValid this"

definition reflectValue_Len :: "store \<Rightarrow> reflectValue \<Rightarrow> error + int" where
  "reflectValue_Len s this = Value_Len s this"

definition reflectValue_IsNil :: "store \<Rightarrow> reflectValue \<Rightarrow> error + bool" where
  "reflectValue_IsNil s this = Value_IsNil s this"

definition reflectValue_Elem :: "store \<Rightarrow> reflectValue \<Rightarrow> error + value_iface" where
  "reflectValue_Elem s this =
     (case Value_Elem s this of Inl e \<Rightarrow> Inl e | Inr x \<Rightarrow> Inr (ReflectValue x))"

definition reflectValue_Value :: "reflectValue \<Rightarrow> reflect_Value" where
  "reflectValue_Value this = this"

definition mapEntry_Type :: "store \<Rightarrow> mapEntry \<Rightarrow> error + gtype" where
  "mapEntry_Type s this =
     (case elem this of
        None \<Rightarrow> (case Value_Type (host this) of Inl e \<Rightarrow> Inl e | Inr t \<Rightarrow> type_Elem t)
      | Some a \<Rightarrow> (case deref s a of Inl e \<Rightarrow> Inl e | Inr c \<Rightarrow> Value_Type c))"

definition mapEntry_Interface :: "store \<Rightarrow> mapEntry \<Rightarrow> error + (gtype \<times> gval) option" where
  "mapEntry_Interface s this =
     (case elem this of
        None \<Rightarrow>
          (case Value_MapIndex s (host this) (key this) of
             Inl e \<Rightarrow> Inl e
           | Inr x \<Rightarrow> Value_Interface s x)
      | Some a \<Rightarrow> (case deref s a of Inl e \<Rightarrow> Inl e | Inr c \<Rightarrow> Value_Interface s c))"

definition mapEntry_Kind :: "store \<Rightarrow> mapEntry \<Rightarrow> error + kind" where
  "mapEntry_Kind s this =
     (case mapEntry_Type s this of Inl e \<Rightarrow> Inl e | Inr t \<Rightarrow> Inr (type_Kind t))"

definition mapEntry_Set :: "store \<Rightarrow> mapEntry \<Rightarrow> reflect_Value \<Rightarrow> error + mapEntry \<times> store" where
  "mapEntry_Set s this v =
     (let (a, s1) = address_of s v;
          this' = this\<lparr>elem := Some a\<rparr>
      in case Value_SetMapIndex s1 (host this') (key this') v of
           Inl e \<Rightarrow> Inl e
         | Inr s' \<Rightarrow> Inr (this', s'))"

definition mapEntry_Value :: "store \<Rightarrow> mapEntry \<Rightarrow> error + reflect_Value" where
  "mapEntry_Value s this =
     (case elem this of
        None \<Rightarrow> Value_MapIndex s (host this) (key this)
      | Some a \<Rightarrow> deref s a)"

definition mapEntry_IsValid :: "store \<Rightarrow> mapEntry \<Rightarrow> error + bool" where
  "mapEntry_IsValid s this =
     (case mapEntry_Value s this of Inl e \<Rightarrow> Inl e | Inr x \<Rightarrow> Inr (Value_IsValid x))"

definition mapEntry_Len :: "store \<Rightarrow> mapEntry \<Rightarrow> error + int" where
  "mapEntry_Len s this =
     (case mapEntry_Value s this of Inl e \<Rightarrow> Inl e | Inr x \<Rightarrow> Value_Len s x)"

definition mapEntry_IsNil :: "store \<Rightarrow> mapEntry \<Rightarrow> error + bool" where
  "mapEntry_IsNil s this =
     (case mapEntry_Value s this of Inl e \<Rightarrow> Inl e | Inr x \<Rightarrow> Value_IsNil s x)"

definition mapEntry_Elem :: "store \<Rightarrow> mapEntry \<Rightarrow> error + mapEntry \<times> store" where
  "mapEntry_Elem s this =
     (case (case elem this of
              None \<Rightarrow> Value_MapIndex s (host this) (key this)
            | Some a \<Rightarrow> (case deref s a of Inl e \<Rightarrow> Inl e | Inr c \<Rightarrow> Value_Elem s c)) of
        Inl e \<Rightarrow> Inl e
      | Inr e \<Rightarrow> (let (a, s') = address_of s e in Inr (this\<lparr>elem := Some a\<rparr>, s')))"

text \<open>Method calls through the interface dispatch on the implementation.\<close>

fun value_Type :: "store \<Rightarrow> value_iface \<Rightarrow> error + gtype" where
  "value_Type s (ReflectValue v) = reflectValue_Type v"
| "value_Type s (MapEntry m) = mapEntry_Type s m"

fun value_Interface :: "store \<Rightarrow> value_iface \<Rightarrow> error + (gtype \<times> gval) option" where
  "value_Interface s (ReflectValue v) = reflectValue_Interface s v"
| "value_Interface s (MapEntry m) = mapEntry_Interface s m"

fun value_Kind :: "store \<Rightarrow> value_iface \<Rightarrow> error + kind" where
  "value_Kind s (ReflectValue v) = Inr (reflectValue_Kind v)"
| "value_Kind s (MapEntry m) = mapEntry_Kind s m"

fun value_Set :: "store \<Rightarrow> value_iface \<Rightarrow> reflect_Value \<Rightarrow> error + value_iface \<times> store" where
  "value_Set s (ReflectValue v) x = reflectValue_Set s v x"
| "value_Set s (MapEntry m) x =
     (case mapEntry_Set s m x of Inl e \<Rightarrow> Inl e | Inr r \<Rightarrow> Inr (MapEntry (fst r), snd r))"

fun value_IsValid :: "store \<Rightarrow> value_iface \<Rightarrow> error + bool" where
  "value_IsValid s (ReflectValue v) = Inr (reflectValue_IsValid v)"
| "value_IsValid s (MapEntry m) = mapEntry_IsValid s m"

fun value_Len :: "store \<Rightarrow> value_iface \<Rightarrow> error + int" where
  "value_Len s (ReflectValue v) = reflectValue_Len s v"
| "value_Len s (MapEntry m) = mapEntry_Len s m"

fun value_IsNil :: "store \<Rightarrow> value_iface \<Rightarrow> error + bool" where
  "value_IsNil s (ReflectValue v) = reflectValue_IsNil s v"
| "value_IsNil s (MapEntry m) = mapEntry_IsNil s m"

fun value_Elem :: "store \<Rightarrow> value_iface \<Rightarrow> error + value_iface \<times> store" where
  "value_Elem s (ReflectValue v) =
     (case reflectValue_Elem s v of Inl e \<Rightarrow> Inl e | Inr h \<Rightarrow> Inr (h, s))"
| "value_Elem s (MapEntry m) =
     (case mapEntry_Elem s m of Inl e \<Rightarrow> Inl e | Inr r \<Rightarrow> Inr (MapEntry (fst r), snd r))"

fun value_Value :: "store \<Rightarrow> value_iface \<Rightarrow> error + reflect_Value" where
  "value_Value s (ReflectValue v) = Inr (reflectValue_Value v)"
| "value_Value s (MapEntry m) = mapEntry_Value s m"

subsection \<open>The scenario of the specification\<close>

text \<open>
  A mapping \<open>M\<close> from string to pointer to \<^verbatim>\<open>Record{Name string}\<close>, holding under
  \<open>''a''\<close> a pointer to a record named \<open>''x''\<close>, and the entry handles for the keys
  \<open>''a''\<close> (present) and \<open>''b''\<close> (absent). Variable 1 is the backing array of a
  slice of two nil interfaces. A second mapping \<open>I\<close>, from string to \<^verbatim>\<open>interface{}\<close>,
  holds the int 3 under \<open>''n''\<close>.
\<close>

definition Record :: gtype where
  "Record = TStruct [(''Name'', TString)]"

definition scenario_store :: store where
  "scenario_store =
     \<lparr>vars = [0 \<mapsto> VStruct [VString ''x''], 1 \<mapsto> VArray [VIface None, VIface None]],
      hmaps = [0 \<mapsto> [(VString ''a'', VPtr (Some (0, [])))],
               1 \<mapsto> [(VString ''n'', VIface (Some (TInt, VInt 3)))]],
      cells = []\<rparr>"

definition scenario_M :: reflect_Value where
  "scenario_M = Val (TMap TString (TPtr Record)) (Copy (VMap (Some 0))) False"

definition ptr_a :: reflect_Value where
  "ptr_a = Val (TPtr Record) (Copy (VPtr (Some (0, [])))) False"

definition entry_a :: mapEntry where
  "entry_a = \<lparr>host = scenario_M, key = Val TString (Copy (VString ''a'')) False,
              elem = None, name = ''a''\<rparr>"

definition entry_b :: mapEntry where
  "entry_b = \<lparr>host = scenario_M, key = Val TString (Copy (VString ''b'')) False,
              elem = None, name = ''b''\<rparr>"

definition scenario_I :: reflect_Value where
  "scenario_I = Val (TMap TString TInterface) (Copy (VMap (Some 1))) False"

definition boxed_3 :: reflect_Value where
  "boxed_3 = Val TInterface (Copy (VIface (Some (TInt, VInt 3)))) False"

definition entry_n :: mapEntry where
  "entry_n = \<lparr>host = scenario_I, key = Val TString (Copy (VString ''n'')) False,
              elem = None, name = ''n''\<rparr>"

definition nil_ptr :: reflect_Value where
  "nil_ptr = Val (TPtr Record) (Copy (VPtr None)) False"

section \<open>Properties of the store and of the reflect operations\<close>

lemma gval_upd_at: "gval_upd g p x = Some g' \<Longrightarrow> gval_at g' p = Some x"
proof (induction g p x arbitrary: g' rule: gval_upd.induct)
  case (2 fs i p x)
  then show ?case by (auto split: if_splits option.splits)
next
  case (3 es i p x)
  then show ?case by (auto split: if_splits option.splits)
qed simp_all

lemma gval_at_upd: "gval_at g p = Some old \<Longrightarrow> \<exists>g'. gval_upd g p x = Some g'"
proof (induction g p arbitrary: old rule: gval_at.induct)
  case (2 fs i p)
  then show ?case by (auto split: if_splits option.splits)
next
  case (3 es i p)
  then show ?case by (auto split: if_splits option.splits)
qed simp_all

lemma store_at_load: "store_at s l x = Inr s' \<Longrightarrow> load s' l = Inr x"
  by (auto simp: store_at_def load_def gval_upd_at split: option.splits)

lemma store_at_frame: "store_at s l x = Inr s' \<Longrightarrow> hmaps s' = hmaps s \<and> cells s' = cells s"
  by (auto simp: store_at_def split: option.splits)

lemma store_at_total: "load s l = Inr old \<Longrightarrow> \<exists>s'. store_at s l x = Inr s'"
proof -
  assume "load s l = Inr old"
  then obtain g where g: "vars s (fst l) = Some g" and "gval_at g (snd l) = Some old"
    by (auto simp: load_def split: option.splits)
  then obtain g' where "gval_upd g (snd l) x = Some g'"
    using gval_at_upd by blast
  with g show ?thesis by (simp add: store_at_def)
qed

lemma Value_Set_Inr:
  assumes "Value_Set s v x = Inr s'"
  obtains t l tx xg g where "v = Val t (Addr l) False" and "x = Val tx xg False"
    and "assignTo s x t = Inr g" and "store_at s l g = Inr s'"
  using assms
  by (auto simp: Value_Set_def split: reflect_Value.splits if_splits target.splits sum.splits)

lemma Value_Set_frame: "Value_Set s v x = Inr s' \<Longrightarrow> hmaps s' = hmaps s \<and> cells s' = cells s"
  by (erule Value_Set_Inr) (simp add: store_at_frame)

lemma assignTo_Interface:
  assumes "assignTo s (Val tx xg False) t = Inr g" and "Value_Interface s (Val tx xg False) = Inr w"
  shows "(if t = TInterface then unbox g else Inr (Some (t, g))) = Inr w"
  using assms
  by (auto simp: assignTo_def Value_Interface_def split: if_splits sum.splits)

lemma Set_then_Interface:
  assumes "Value_Set s v x = Inr s'" and "Value_Interface s x = Inr w"
  shows "Value_Interface s' v = Inr w"
proof -
  from assms(1) obtain t l tx xg g where v: "v = Val t (Addr l) False" and x: "x = Val tx xg False"
    and a: "assignTo s x t = Inr g" and st: "store_at s l g = Inr s'"
    by (rule Value_Set_Inr)
  have "load s' l = Inr g" using st by (rule store_at_load)
  moreover have "(if t = TInterface then unbox g else Inr (Some (t, g))) = Inr w"
    using a assms(2) unfolding x by (rule assignTo_Interface)
  ultimately show ?thesis by (simp add: v Value_Interface_def)
qed

lemma Value_MapIndex_Inr:
  assumes "Value_MapIndex s v k = Inr p"
  obtains kt et tg r where "v = Val (TMap kt et) tg r"
    and "p = ZeroValue \<or> (\<exists>e. p = Val et (Copy e) (r \<or> flag_ro k))"
  using assms
  by (auto simp: Value_MapIndex_def split: reflect_Value.splits gtype.splits sum.splits option.splits)

lemma Value_Len_scalar:
  assumes "Value_Kind v = k" and "k = KBool \<or> k = KInt"
  shows "Value_Len s v = Inl (ValueError ''reflect.Value.Len'' k)"
  using assms by (cases v) (auto simp: Value_Kind_def Value_Len_def)

lemma mapaccess_cong: "hmaps s' = hmaps s \<Longrightarrow> mapaccess s' m k = mapaccess s m k"
  unfolding mapaccess_def by (cases m) simp_all

lemma load_cong: "vars s' = vars s \<Longrightarrow> load s' l = load s l"
  unfolding load_def by simp

lemma target_read_cong: "vars s' = vars s \<Longrightarrow> target_read s' tg = target_read s tg"
  by (cases tg) (simp_all add: load_cong [of s' s])

lemma assignTo_cong: "vars s' = vars s \<Longrightarrow> assignTo s' v t = assignTo s v t"
  unfolding assignTo_def by (cases v) (simp_all add: target_read_cong [of s' s])

lemma Value_Interface_cong: "vars s' = vars s \<Longrightarrow> Value_Interface s' v = Value_Interface s v"
  unfolding Value_Interface_def by (cases v) (simp_all add: target_read_cong [of s' s])

lemma Value_Elem_cong:
  assumes "vars s' = vars s"
  shows "Value_Elem s' v = Value_Elem s v"
proof -
  have rd: "\<And>tg. target_read s' tg = target_read s tg"
    using assms by (rule target_read_cong)
  show ?thesis unfolding Value_Elem_def rd ..
qed

lemma Value_MapIndex_cong:
  assumes "vars s' = vars s" and "hmaps s' = hmaps s"
  shows "Value_MapIndex s' v k = Value_MapIndex s v k"
proof -
  have rd: "\<And>tg. target_read s' tg = target_read s tg"
    using assms(1) by (rule target_read_cong)
  have asg: "\<And>x t. assignTo s' x t = assignTo s x t"
    using assms(1) by (rule assignTo_cong)
  have acc: "\<And>m k. mapaccess s' m k = mapaccess s m k"
    using assms(2) by (rule mapaccess_cong)
  show ?thesis unfolding Value_MapIndex_def rd asg acc ..
qed

lemma Value_MapIndex_found:
  assumes "v = Val (TMap kt et) tg r" and "target_read s tg = Inr (VMap m)"
    and "assignTo s ky kt = Inr k" and "mapaccess s m k = Inr found"
  shows "Value_MapIndex s v ky =
           Inr (case found of None \<Rightarrow> ZeroValue | Some e \<Rightarrow> Val et (Copy e) (r \<or> flag_ro ky))"
  using assms by (simp add: Value_MapIndex_def split: option.splits)

lemma Value_Interface_Val_not_Invalid:
  "Value_Interface s (Val t tg r) \<noteq> Inl (ValueError ''reflect.Value.Interface'' KInvalid)"
proof (cases "target_read s tg")
  case (Inl e)
  then have "e = Fault" by (cases tg) (auto simp: load_def split: option.splits)
  with Inl show ?thesis by (simp add: Value_Interface_def)
next
  case (Inr g)
  then show ?thesis by (cases g) (simp_all add: Value_Interface_def)
qed

lemma Value_IsNil_nil_pointer:
  assumes "target_read s tg = Inr (VPtr None)"
  shows "Value_IsNil s (Val (TPtr t) tg r) = Inr True"
  using assms by (simp add: Value_IsNil_def shape_ok_def)

lemma Value_Elem_nil_pointer:
  assumes "target_read s tg = Inr (VPtr None)"
  shows "Value_Elem s (Val (TPtr t) tg r) = Inr ZeroValue"
  using assms by (simp add: Value_Elem_def)

lemma deref_address_of [simp]: "deref (snd (address_of s v)) (fst (address_of s v)) = Inr v"
  by (simp add: deref_def address_of_def)

lemma address_of_frame [simp]:
  "vars (snd (address_of s v)) = vars s" "hmaps (snd (address_of s v)) = hmaps s"
  by (simp_all add: address_of_def)

lemma address_of_simps [simp]:
  "fst (address_of s v) = length (cells s)"
  "snd (address_of s v) = s\<lparr>cells := cells s @ [v]\<rparr>"
  by (simp_all add: address_of_def)

lemma deref_old_cell: "deref s a = Inr c \<Longrightarrow> deref (s\<lparr>cells := cells s @ [v]\<rparr>) a = Inr c"
  by (auto simp: deref_def nth_append split: if_splits)

lemma deref_allocated: "deref s a = Inr c \<Longrightarrow> a < length (cells s)"
  by (auto simp: deref_def split: if_splits)

lemma deref_new_cell [simp]: "deref (s\<lparr>cells := cells s @ [v]\<rparr>) (length (cells s)) = Inr v"
  by (simp add: deref_def)

lemma Value_MapIndex_cells [simp]:
  "Value_MapIndex (s\<lparr>cells := cs\<rparr>) v k = Value_MapIndex s v k"
  by (rule Value_MapIndex_cong) simp_all

lemma Value_Elem_cells [simp]: "Value_Elem (s\<lparr>cells := cs\<rparr>) v = Value_Elem s v"
  by (rule Value_Elem_cong) simp

lemma Value_Interface_cells [simp]: "Value_Interface (s\<lparr>cells := cs\<rparr>) v = Value_Interface s v"
  by (rule Value_Interface_cong) simp

lemma mapassign_frame: "mapassign s m k e = Inr s' \<Longrightarrow> vars s' = vars s \<and> cells s' = cells s"
  by (auto simp: mapassign_def split: option.splits if_splits)

lemma mapdelete_frame: "mapdelete s m k = Inr s' \<Longrightarrow> vars s' = vars s \<and> cells s' = cells s"
  by (auto simp: mapdelete_def split: option.splits if_splits)

lemma Value_SetMapIndex_frame:
  assumes "Value_SetMapIndex s v k e = Inr s'"
  shows "vars s' = vars s \<and> cells s' = cells s"
proof -
  from assms obtain m kv ev where "mapdelete s m kv = Inr s' \<or> mapassign s m kv ev = Inr s'"
    by (auto simp: Value_SetMapIndex_def
        split: reflect_Value.splits gtype.splits if_splits sum.splits)
  then show ?thesis using mapassign_frame mapdelete_frame by blast
qed

lemma target_read_cells [simp]: "target_read (s\<lparr>cells := cs\<rparr>) tg = target_read s tg"
  by (rule target_read_cong) simp

lemma assignTo_cells [simp]: "assignTo (s\<lparr>cells := cs\<rparr>) v t = assignTo s v t"
  by (rule assignTo_cong) simp

lemma Value_SetMapIndex_assign:
  assumes "target_read s htg = Inr (VMap (Some a))"
    and "hmaps s a = Some al"
    and "assignTo s (Val tk ktg False) kt = Inr k"
    and "hashable k"
    and "assignTo s (Val tv vtg False) et = Inr w"
  shows "Value_SetMapIndex s (Val (TMap kt et) htg False) (Val tk ktg False) (Val tv vtg False)
           = Inr (s\<lparr>hmaps := (hmaps s)(a \<mapsto> AList.update k w al)\<rparr>)"
  using assms by (simp add: Value_SetMapIndex_def Value_IsValid_def flag_ro_def mapassign_def)

lemma Value_Interface_hmaps [simp]: "Value_Interface (s\<lparr>hmaps := m\<rparr>) v = Value_Interface s v"
  by (rule Value_Interface_cong) simp

lemma entry_Set_assign:
  assumes "host h = Val (TMap kt et) htg False"
    and "target_read s htg = Inr (VMap (Some a))"
    and "hmaps s a = Some al"
    and "key h = Val tk ktg False"
    and "assignTo s (key h) kt = Inr k"
    and "hashable k"
    and "assignTo s (Val tv vtg False) et = Inr w"
  shows "mapEntry_Set s h (Val tv vtg False)
           = Inr (h\<lparr>elem := Some (length (cells s))\<rparr>,
                  s\<lparr>cells := cells s @ [Val tv vtg False],
                    hmaps := (hmaps s)(a \<mapsto> AList.update k w al)\<rparr>)"
proof -
  let ?s1 = "s\<lparr>cells := cells s @ [Val tv vtg False]\<rparr>"
  have "Value_SetMapIndex ?s1 (Val (TMap kt et) htg False) (Val tk ktg False) (Val tv vtg False)
          = Inr (?s1\<lparr>hmaps := (hmaps ?s1)(a \<mapsto> AList.update k w al)\<rparr>)"
    using assms by (intro Value_SetMapIndex_assign) simp_all
  then show ?thesis using assms(1,4) by (simp add: mapEntry_Set_def address_of_def)
qed

lemma Value_Set_total:
  assumes "load s l = Inr old"
    and "Value_Interface s x = Inr w"
    and "Value_Type x = Inr tx"
    and "t = tx \<or> t = TInterface"
  shows "\<exists>s'. Value_Set s (Val t (Addr l) False) x = Inr s'"
proof -
  from assms(2,3) obtain xg g where x: "x = Val tx xg False" and g: "target_read s xg = Inr g"
    by (auto simp: Value_Interface_def Value_Type_def split: reflect_Value.splits if_splits sum.splits)
  have "\<exists>g'. assignTo s x t = Inr g'"
    using assms(4) g by (cases "t = tx") (auto simp: assignTo_def x)
  then obtain g' where a: "assignTo s x t = Inr g'" ..
  from assms(1) obtain s' where "store_at s l g' = Inr s'"
    using store_at_total by blast
  with a have "Value_Set s (Val t (Addr l) False) x = Inr s'"
    by (simp add: Value_Set_def x)
  then show ?thesis ..
qed

lemma Value_Field_addressable:
  assumes "0 \<le> i" and "i < int (length fs)" and "IsExported (fst (fs ! nat i))"
  shows "Value_Field (Val (TStruct fs) (Addr l) False) i
           = Inr (Val (snd (fs ! nat i)) (Addr (fst l, snd l @ [nat i])) False)"
  using assms by (simp add: Value_Field_def)

lemma Value_Elem_pointer:
  assumes "target_read s tg = Inr (VPtr (Some l))"
  shows "Value_Elem s (Val (TPtr t) tg r) = Inr (Val t (Addr l) r)"
  using assms by (simp add: Value_Elem_def)

lemma write_field_then_read_back:
  assumes hm: "hmaps s a = Some al"
    and ent: "map_of al k = Some (VPtr (Some l))"
    and hk: "hashable k"
    and fld: "load s (fst l, snd l @ [nat i]) = Inr old"
    and xi: "Value_Interface s x = Inr w"
    and xt: "Value_Type x = Inr tx"
    and asg: "ft = tx \<or> ft = TInterface"
  shows "\<exists>s3. Value_Set s (Val ft (Addr (fst l, snd l @ [nat i])) False) x = Inr s3
           \<and> mapaccess s3 (Some a) k = Inr (Some (VPtr (Some l)))
           \<and> Value_MapIndex s3 (Val (TMap kt (TPtr st)) (Copy (VMap (Some a))) False) (Val kt (Copy k) False)
               = Inr (Val (TPtr st) (Copy (VPtr (Some l))) False)
           \<and> Value_Elem s3 (Val (TPtr st) (Copy (VPtr (Some l))) False) = Inr (Val st (Addr l) False)
           \<and> Value_Interface s3 (Val ft (Addr (fst l, snd l @ [nat i])) False) = Inr w"
proof -
  let ?f = "Val ft (Addr (fst l, snd l @ [nat i])) False"
  from Value_Set_total [OF fld xi xt asg] obtain s3 where set: "Value_Set s ?f x = Inr s3" ..
  have "hmaps s3 = hmaps s" using set by (simp add: Value_Set_frame)
  then have acc: "mapaccess s3 (Some a) k = Inr (Some (VPtr (Some l)))"
    using hm ent hk by (simp add: mapaccess_def)
  have rd: "target_read s3 (Copy (VMap (Some a))) = Inr (VMap (Some a))" by simp
  have ak: "assignTo s3 (Val kt (Copy k) False) kt = Inr k" by (simp add: assignTo_def)
  have mi: "Value_MapIndex s3 (Val (TMap kt (TPtr st)) (Copy (VMap (Some a))) False) (Val kt (Copy k) False)
               = Inr (Val (TPtr st) (Copy (VPtr (Some l))) False)"
    using Value_MapIndex_found [OF refl rd ak acc] by (simp add: flag_ro_def)
  have el: "Value_Elem s3 (Val (TPtr st) (Copy (VPtr (Some l))) False) = Inr (Val st (Addr l) False)"
    by (rule Value_Elem_pointer) simp
  have "Value_Interface s3 ?f = Inr w" using set xi by (rule Set_then_Interface)
  with set acc mi el show ?thesis by blast
qed


lemma load_cells [simp]: "load (s\<lparr>cells := cs\<rparr>) l = load s l"
  by (rule load_cong) simp

lemma load_hmaps [simp]: "load (s\<lparr>hmaps := m\<rparr>) l = load s l"
  by (rule load_cong) simp

lemma target_read_hmaps [simp]: "target_read (s\<lparr>hmaps := m\<rparr>) tg = target_read s tg"
  by (rule target_read_cong) simp

lemma Elem_twice_without_cache:
  assumes "elem h = None"
    and "Value_MapIndex s (host h) (key h) = Inr (Val (TPtr st) (Copy (VPtr (Some l))) False)"
  shows "mapEntry_Elem s h
           = Inr (h\<lparr>elem := Some (length (cells s))\<rparr>,
                  s\<lparr>cells := cells s @ [Val (TPtr st) (Copy (VPtr (Some l))) False]\<rparr>)"
    and "mapEntry_Elem (s\<lparr>cells := cells s @ [Val (TPtr st) (Copy (VPtr (Some l))) False]\<rparr>)
           (h\<lparr>elem := Some (length (cells s))\<rparr>)
           = Inr (h\<lparr>elem := Some (Suc (length (cells s)))\<rparr>,
                  s\<lparr>cells := cells s @ [Val (TPtr st) (Copy (VPtr (Some l))) False, Val st (Addr l) False]\<rparr>)"
proof -
  show "mapEntry_Elem s h
           = Inr (h\<lparr>elem := Some (length (cells s))\<rparr>,
                  s\<lparr>cells := cells s @ [Val (TPtr st) (Copy (VPtr (Some l))) False]\<rparr>)"
    using assms by (simp add: mapEntry_Elem_def address_of_def)
  have "Value_Elem s (Val (TPtr st) (Copy (VPtr (Some l))) False) = Inr (Val st (Addr l) False)"
    by (rule Value_Elem_pointer) simp
  then show "mapEntry_Elem (s\<lparr>cells := cells s @ [Val (TPtr st) (Copy (VPtr (Some l))) False]\<rparr>)
           (h\<lparr>elem := Some (length (cells s))\<rparr>)
           = Inr (h\<lparr>elem := Some (Suc (length (cells s)))\<rparr>,
                  s\<lparr>cells := cells s @ [Val (TPtr st) (Copy (VPtr (Some l))) False, Val st (Addr l) False]\<rparr>)"
    by (simp add: mapEntry_Elem_def address_of_def)
qed

lemma Elem_with_cached_pointer:
  assumes "elem h = Some n" and "deref s n = Inr (Val (TPtr st) tg False)"
    and "target_read s tg = Inr (VPtr (Some l))"
  shows "mapEntry_Elem s h
           = Inr (h\<lparr>elem := Some (length (cells s))\<rparr>, s\<lparr>cells := cells s @ [Val st (Addr l) False]\<rparr>)"
proof -
  have "Value_Elem s (Val (TPtr st) tg False) = Inr (Val st (Addr l) False)"
    using assms(3) by (rule Value_Elem_pointer)
  with assms(1,2) show ?thesis by (simp add: mapEntry_Elem_def address_of_def)
qed

section \<open>Properties of the addressable values\<close>

text \<open>
  C8. Read-after-write, direct variant. A Direct Reference handle is a settable
  \<^verbatim>\<open>reflect.Value\<close>: it refers to an allocated location (a struct field, a slice
  element, the target of a pointer) and was not obtained through an unexported field.
  For every valid value \<open>x\<close> whose type is assignable to the handle's type, \<open>Set(x)\<close>
  returns the handle, and \<open>Interface()\<close> on it then returns what \<open>x.Interface()\<close>
  returned before the call.
\<close>

theorem direct_Set_then_Interface:
  assumes "load s l = Inr old"
    and "Value_Interface s x = Inr w"
    and "Value_Type x = Inr tx"
    and "t = tx \<or> t = TInterface"
  shows "\<exists>s'. reflectValue_Set s (Val t (Addr l) False) x = Inr (ReflectValue (Val t (Addr l) False), s')
           \<and> reflectValue_Interface s' (Val t (Addr l) False) = Inr w"
proof -
  from assms(2,3) obtain xg g where x: "x = Val tx xg False" and g: "target_read s xg = Inr g"
    by (auto simp: Value_Interface_def Value_Type_def split: reflect_Value.splits if_splits sum.splits)
  have "\<exists>g'. assignTo s x t = Inr g'"
    using assms(4) g by (cases "t = tx") (auto simp: assignTo_def x)
  then obtain g' where a: "assignTo s x t = Inr g'" ..
  from assms(1) obtain s' where st: "store_at s l g' = Inr s'"
    using store_at_total by blast
  have set: "Value_Set s (Val t (Addr l) False) x = Inr s'"
    using a st by (simp add: Value_Set_def x)
  then have "Value_Interface s' (Val t (Addr l) False) = Inr w"
    using assms(2) by (rule Set_then_Interface)
  with set show ?thesis
    by (simp add: reflectValue_Set_def reflectValue_Interface_def)
qed

theorem direct_Set_then_Interface_witness:
  "Value_Field (Val Record (Addr (0, [])) False) 0 = Inr (Val TString (Addr (0, [0])) False)
   \<and> load scenario_store (0, [0]) = Inr (VString ''x'')
   \<and> Value_Interface scenario_store (Val TString (Copy (VString ''y'')) False) = Inr (Some (TString, VString ''y''))
   \<and> Value_Type (Val TString (Copy (VString ''y'')) False) = Inr TString
   \<and> (TString = TString \<or> TString = TInterface)
   \<and> (\<exists>s'. reflectValue_Set scenario_store (Val TString (Addr (0, [0])) False) (Val TString (Copy (VString ''y'')) False)
              = Inr (ReflectValue (Val TString (Addr (0, [0])) False), s')
           \<and> reflectValue_Interface s' (Val TString (Addr (0, [0])) False) = Inr (Some (TString, VString ''y'')))
   \<and> load scenario_store (1, [1]) = Inr (VIface None)
   \<and> Value_Interface scenario_store (Val TInt (Copy (VInt 7)) False) = Inr (Some (TInt, VInt 7))
   \<and> Value_Type (Val TInt (Copy (VInt 7)) False) = Inr TInt
   \<and> (TInterface = TInt \<or> TInterface = TInterface)
   \<and> (\<exists>s'. reflectValue_Set scenario_store (Val TInterface (Addr (1, [1])) False) (Val TInt (Copy (VInt 7)) False)
              = Inr (ReflectValue (Val TInterface (Addr (1, [1])) False), s')
           \<and> reflectValue_Interface s' (Val TInterface (Addr (1, [1])) False) = Inr (Some (TInt, VInt 7)))"
proof -
  have f: "Value_Field (Val Record (Addr (0, [])) False) 0 = Inr (Val TString (Addr (0, [0])) False)"
    by (simp add: Value_Field_def Record_def IsExported_def)
  have l: "load scenario_store (0, [0]) = Inr (VString ''x'')"
    by (simp add: load_def scenario_store_def)
  have i: "Value_Interface scenario_store (Val TString (Copy (VString ''y'')) False) = Inr (Some (TString, VString ''y''))"
    by (simp add: Value_Interface_def)
  have t: "Value_Type (Val TString (Copy (VString ''y'')) False) = Inr TString"
    by (simp add: Value_Type_def)
  have d: "TString = TString \<or> TString = TInterface" by simp
  have l2: "load scenario_store (1, [1]) = Inr (VIface None)"
    by (simp add: load_def scenario_store_def)
  have i2: "Value_Interface scenario_store (Val TInt (Copy (VInt 7)) False) = Inr (Some (TInt, VInt 7))"
    by (simp add: Value_Interface_def)
  have t2: "Value_Type (Val TInt (Copy (VInt 7)) False) = Inr TInt"
    by (simp add: Value_Type_def)
  have d2: "TInterface = TInt \<or> TInterface = TInterface" by simp
  show ?thesis
    using f l i t l2 i2 t2 direct_Set_then_Interface [OF l i t d] direct_Set_then_Interface [OF l2 i2 t2 d2]
    by simp
qed

text \<open>
  C9. Kind mismatch. For every handle, of either variant, whose \<open>Kind()\<close> is a scalar
  kind (bool or int), \<open>Len()\<close> does not return a length: it panics. On a Direct
  Reference the panic is reflect's \<^verbatim>\<open>ValueError{"reflect.Value.Len", kind}\<close>.
\<close>

theorem Len_on_scalar_kind:
  assumes "value_Kind s h = Inr k" and "k = KBool \<or> k = KInt"
  shows "\<exists>e. value_Len s h = Inl e"
proof (cases h)
  case (ReflectValue v)
  with assms(1) have "Value_Kind v = k" by (simp add: reflectValue_Kind_def)
  then have "Value_Len s v = Inl (ValueError ''reflect.Value.Len'' k)"
    using assms(2) by (rule Value_Len_scalar)
  with ReflectValue show ?thesis by (simp add: reflectValue_Len_def)
next
  case (MapEntry m)
  show ?thesis
  proof (cases "mapEntry_Value s m")
    case (Inl e)
    with MapEntry show ?thesis by (simp add: mapEntry_Len_def)
  next
    case (Inr x)
    have "Value_Kind x = KInvalid \<or> Value_Kind x = k"
    proof (cases "elem m")
      case None
      with Inr have mi: "Value_MapIndex s (host m) (key m) = Inr x"
        by (simp add: mapEntry_Value_def)
      then obtain kt et tg r where hm: "host m = Val (TMap kt et) tg r"
        and x: "x = ZeroValue \<or> (\<exists>e. x = Val et (Copy e) (r \<or> flag_ro (key m)))"
        by (rule Value_MapIndex_Inr)
      from assms(1) MapEntry None hm have "type_Kind et = k"
        by (simp add: mapEntry_Kind_def mapEntry_Type_def Value_Type_def)
      with x show ?thesis by (auto simp: Value_Kind_def)
    next
      case (Some a)
      with Inr have "deref s a = Inr x" by (simp add: mapEntry_Value_def)
      with assms(1) MapEntry Some show ?thesis
        by (cases x) (auto simp: mapEntry_Kind_def mapEntry_Type_def Value_Type_def Value_Kind_def)
    qed
    then have "\<exists>e. Value_Len s x = Inl e"
    proof
      assume "Value_Kind x = KInvalid"
      then show ?thesis by (cases x) (auto simp: Value_Kind_def Value_Len_def)
    next
      assume "Value_Kind x = k"
      then show ?thesis using assms(2) Value_Len_scalar by blast
    qed
    with MapEntry Inr show ?thesis by (simp add: mapEntry_Len_def)
  qed
qed

theorem Len_on_scalar_kind_witness:
  "value_Kind scenario_store (ReflectValue (Val TInt (Copy (VInt 5)) False)) = Inr KInt
   \<and> (KInt = KBool \<or> KInt = KInt)
   \<and> (\<exists>e. value_Len scenario_store (ReflectValue (Val TInt (Copy (VInt 5)) False)) = Inl e)
   \<and> value_Len scenario_store (ReflectValue (Val TInt (Copy (VInt 5)) False))
        = Inl (ValueError ''reflect.Value.Len'' KInt)
   \<and> value_Kind (scenario_store\<lparr>cells := [Val TInt (Copy (VInt 3)) False]\<rparr>) (MapEntry (entry_n\<lparr>elem := Some 0\<rparr>))
        = Inr KInt
   \<and> (\<exists>e. value_Len (scenario_store\<lparr>cells := [Val TInt (Copy (VInt 3)) False]\<rparr>) (MapEntry (entry_n\<lparr>elem := Some 0\<rparr>))
        = Inl e)"
proof -
  have k: "value_Kind scenario_store (ReflectValue (Val TInt (Copy (VInt 5)) False)) = Inr KInt"
    by (simp add: reflectValue_Kind_def Value_Kind_def)
  have d: "KInt = KBool \<or> KInt = KInt" by simp
  have v: "value_Len scenario_store (ReflectValue (Val TInt (Copy (VInt 5)) False))
        = Inl (ValueError ''reflect.Value.Len'' KInt)"
    by (simp add: reflectValue_Len_def Value_Len_def)
  have k2: "value_Kind (scenario_store\<lparr>cells := [Val TInt (Copy (VInt 3)) False]\<rparr>) (MapEntry (entry_n\<lparr>elem := Some 0\<rparr>))
        = Inr KInt"
    by (simp add: mapEntry_Kind_def mapEntry_Type_def deref_def Value_Type_def)
  show ?thesis
    using k d v k2 Len_on_scalar_kind [OF k d] Len_on_scalar_kind [OF k2 d] by simp
qed

text \<open>
  C7. For every Mapping Entry Reference whose host is a mapping with declared element
  type \<open>et\<close>: with no cached element \<open>Type()\<close> returns \<open>et\<close> whatever the store holds
  under the key, and with a cached element it returns the type of the cached
  \<^verbatim>\<open>reflect.Value\<close>. In the scenario the mapping \<open>I\<close> holds an int under
  \<open>''n''\<close>: the handle without cache has type \<^verbatim>\<open>interface{}\<close> while \<open>Interface()\<close>
  yields a value of dynamic type int.
\<close>

theorem mapEntry_Type_static:
  assumes "Value_Type (host h) = Inr (TMap kt et)" and "deref s a = Inr c"
  shows "(\<forall>s'. mapEntry_Type s' (h\<lparr>elem := None\<rparr>) = Inr et)
         \<and> mapEntry_Type s (h\<lparr>elem := Some a\<rparr>) = Value_Type c"
  using assms by (simp add: mapEntry_Type_def)

theorem mapEntry_Type_static_witness:
  "Value_Type (host entry_n) = Inr (TMap TString TInterface)
   \<and> deref (scenario_store\<lparr>cells := [boxed_3, Val TInt (Copy (VInt 3)) False]\<rparr>) 1 = Inr (Val TInt (Copy (VInt 3)) False)
   \<and> mapEntry_Type scenario_store (entry_n\<lparr>elem := None\<rparr>) = Inr TInterface
   \<and> mapEntry_Interface scenario_store (entry_n\<lparr>elem := None\<rparr>) = Inr (Some (TInt, VInt 3))
   \<and> mapEntry_Type (scenario_store\<lparr>cells := [boxed_3, Val TInt (Copy (VInt 3)) False]\<rparr>) (entry_n\<lparr>elem := Some 1\<rparr>) = Inr TInt"
proof -
  have t: "Value_Type (host entry_n) = Inr (TMap TString TInterface)"
    by (simp add: entry_n_def scenario_I_def Value_Type_def)
  have d: "deref (scenario_store\<lparr>cells := [boxed_3, Val TInt (Copy (VInt 3)) False]\<rparr>) 1 = Inr (Val TInt (Copy (VInt 3)) False)"
    by (simp add: deref_def)
  have i: "mapEntry_Interface scenario_store (entry_n\<lparr>elem := None\<rparr>) = Inr (Some (TInt, VInt 3))"
    by (simp add: mapEntry_Interface_def entry_n_def scenario_I_def scenario_store_def
        Value_MapIndex_def assignTo_def mapaccess_def Value_Interface_def flag_ro_def)
  show ?thesis using t d i mapEntry_Type_static [OF t d] by (simp add: Value_Type_def)
qed

text \<open>
  C6. Absence is a data state. For every Mapping Entry Reference with no cached element
  whose host is a mapping and whose key is assignable to the key type: \<open>IsValid()\<close>
  returns, without panicking, whether the runtime's lookup finds the key, so it is
  false for an absent key; \<open>Value()\<close> is then the zero \<^verbatim>\<open>reflect.Value\<close>; and
  \<open>Interface()\<close> panics with \<^verbatim>\<open>ValueError{"reflect.Value.Interface", Invalid}\<close>
  exactly when the key is absent, so that no result for an absent key can be taken for
  a stored zero value.
\<close>

theorem absent_key_is_invalid:
  assumes "elem h = None"
    and "host h = Val (TMap kt et) tg r"
    and "target_read s tg = Inr (VMap m)"
    and "assignTo s (key h) kt = Inr k"
    and "mapaccess s m k = Inr found"
  shows "mapEntry_IsValid s h = Inr (found \<noteq> None)
         \<and> mapEntry_Value s h =
             Inr (case found of None \<Rightarrow> ZeroValue | Some e \<Rightarrow> Val et (Copy e) (r \<or> flag_ro (key h)))
         \<and> ((mapEntry_Interface s h = Inl (ValueError ''reflect.Value.Interface'' KInvalid)) = (found = None))"
proof -
  have mi: "Value_MapIndex s (host h) (key h) =
              Inr (case found of None \<Rightarrow> ZeroValue | Some e \<Rightarrow> Val et (Copy e) (r \<or> flag_ro (key h)))"
    using assms(2-5) by (rule Value_MapIndex_found)
  have v: "mapEntry_Value s h =
              Inr (case found of None \<Rightarrow> ZeroValue | Some e \<Rightarrow> Val et (Copy e) (r \<or> flag_ro (key h)))"
    using assms(1) mi by (simp add: mapEntry_Value_def)
  have "mapEntry_IsValid s h = Inr (found \<noteq> None)"
    using v by (cases found) (simp_all add: mapEntry_IsValid_def Value_IsValid_def)
  moreover have "(mapEntry_Interface s h = Inl (ValueError ''reflect.Value.Interface'' KInvalid)) = (found = None)"
  proof (cases found)
    case None
    with assms(1) mi show ?thesis by (simp add: mapEntry_Interface_def Value_Interface_def)
  next
    case (Some e)
    with assms(1) mi show ?thesis
      by (simp add: mapEntry_Interface_def Value_Interface_Val_not_Invalid)
  qed
  ultimately show ?thesis using v by simp
qed

theorem absent_key_is_invalid_witness:
  "elem entry_b = None
   \<and> host entry_b = Val (TMap TString (TPtr Record)) (Copy (VMap (Some 0))) False
   \<and> target_read scenario_store (Copy (VMap (Some 0))) = Inr (VMap (Some 0))
   \<and> assignTo scenario_store (key entry_b) TString = Inr (VString ''b'')
   \<and> mapaccess scenario_store (Some 0) (VString ''b'') = Inr None
   \<and> mapEntry_IsValid scenario_store entry_b = Inr False
   \<and> mapEntry_Value scenario_store entry_b = Inr ZeroValue
   \<and> mapEntry_Interface scenario_store entry_b = Inl (ValueError ''reflect.Value.Interface'' KInvalid)"
proof -
  have e: "elem entry_b = None" by (simp add: entry_b_def)
  have h: "host entry_b = Val (TMap TString (TPtr Record)) (Copy (VMap (Some 0))) False"
    by (simp add: entry_b_def scenario_M_def)
  have r: "target_read scenario_store (Copy (VMap (Some 0))) = Inr (VMap (Some 0))" by simp
  have a: "assignTo scenario_store (key entry_b) TString = Inr (VString ''b'')"
    by (simp add: entry_b_def assignTo_def)
  have m: "mapaccess scenario_store (Some 0) (VString ''b'') = Inr None"
    by (simp add: mapaccess_def scenario_store_def)
  show ?thesis using e h r a m absent_key_is_invalid [OF e h r a m] by simp
qed

text \<open>
  C5, as the specification states it, fails: on a Direct Reference addressing a nil
  pointer, \<open>IsNil()\<close> is true but \<open>Elem()\<close> does not panic. It returns the handle
  on the zero \<^verbatim>\<open>reflect.Value\<close>, as \<^verbatim>\<open>reflect.Value.Elem\<close> does on a nil pointer.
\<close>

theorem Elem_nil_pointer_counterexample:
  "value_IsNil scenario_store (ReflectValue nil_ptr) = Inr True
   \<and> value_Elem scenario_store (ReflectValue nil_ptr) = Inr (ReflectValue ZeroValue, scenario_store)"
  by (simp add: nil_ptr_def reflectValue_IsNil_def Value_IsNil_def shape_ok_def
      reflectValue_Elem_def Value_Elem_def)

text \<open>
  C5, amended. For every handle, of either variant, that addresses a nil pointer,
  \<open>IsNil()\<close> returns true, and \<open>Elem()\<close> returns without panicking and without
  touching the object graph: a Direct Reference and a Mapping Entry Reference with a
  cached element yield a handle on the zero \<^verbatim>\<open>reflect.Value\<close> (so \<open>IsValid()\<close> is
  false on it); a Mapping Entry Reference with no cached element yields the entry with
  the nil pointer cached.
\<close>

theorem Elem_nil_pointer:
  assumes "value_Value s h = Inr (Val (TPtr t) tg r)" and "target_read s tg = Inr (VPtr None)"
  shows "value_IsNil s h = Inr True
         \<and> (\<exists>h' s'. value_Elem s h = Inr (h', s') \<and> vars s' = vars s \<and> hmaps s' = hmaps s
              \<and> h' = (case h of
                         ReflectValue v \<Rightarrow> ReflectValue ZeroValue
                       | MapEntry m \<Rightarrow> MapEntry (m\<lparr>elem := Some (length (cells s))\<rparr>))
              \<and> value_Value s' h' =
                  Inr (case h of
                         ReflectValue v \<Rightarrow> ZeroValue
                       | MapEntry m \<Rightarrow> (case elem m of None \<Rightarrow> Val (TPtr t) tg r | Some a \<Rightarrow> ZeroValue)))"
proof (cases h)
  case (ReflectValue v)
  with assms(1) have v: "v = Val (TPtr t) tg r" by (simp add: reflectValue_Value_def)
  show ?thesis
    using assms(2) by (simp add: ReflectValue v reflectValue_IsNil_def reflectValue_Elem_def
        Value_IsNil_nil_pointer Value_Elem_nil_pointer reflectValue_Value_def)
next
  case (MapEntry m)
  from assms(1) MapEntry have val: "mapEntry_Value s m = Inr (Val (TPtr t) tg r)" by simp
  then have nil: "value_IsNil s h = Inr True"
    using assms(2) by (simp add: MapEntry mapEntry_IsNil_def Value_IsNil_nil_pointer)
  show ?thesis
  proof (cases "elem m")
    case None
    with val have "Value_MapIndex s (host m) (key m) = Inr (Val (TPtr t) tg r)"
      by (simp add: mapEntry_Value_def)
    then show ?thesis
      using nil None by (simp add: MapEntry mapEntry_Elem_def address_of_def mapEntry_Value_def)
  next
    case (Some a)
    with val have "deref s a = Inr (Val (TPtr t) tg r)" by (simp add: mapEntry_Value_def)
    then show ?thesis
      using nil Some assms(2)
      by (simp add: MapEntry mapEntry_Elem_def address_of_def mapEntry_Value_def Value_Elem_nil_pointer)
  qed
qed

theorem Elem_nil_pointer_witness:
  "value_Value scenario_store (ReflectValue nil_ptr) = Inr (Val (TPtr Record) (Copy (VPtr None)) False)
   \<and> target_read scenario_store (Copy (VPtr None)) = Inr (VPtr None)
   \<and> value_IsNil scenario_store (ReflectValue nil_ptr) = Inr True
   \<and> (\<exists>h' s'. value_Elem scenario_store (ReflectValue nil_ptr) = Inr (h', s')
         \<and> value_Value s' h' = Inr ZeroValue \<and> value_IsValid s' h' = Inr False)"
proof -
  have v: "value_Value scenario_store (ReflectValue nil_ptr) = Inr (Val (TPtr Record) (Copy (VPtr None)) False)"
    by (simp add: nil_ptr_def reflectValue_Value_def)
  have r: "target_read scenario_store (Copy (VPtr None)) = Inr (VPtr None)" by simp
  have inv: "value_IsValid s' h' = Inr False" if "value_Value s' h' = Inr ZeroValue" for s' h'
    using that by (cases h') (simp_all add: reflectValue_Value_def reflectValue_IsValid_def
        mapEntry_IsValid_def Value_IsValid_def)
  from Elem_nil_pointer [OF v r]
  have nil: "value_IsNil scenario_store (ReflectValue nil_ptr) = Inr True"
    and "\<exists>h' s'. value_Elem scenario_store (ReflectValue nil_ptr) = Inr (h', s')
           \<and> value_Value s' h' = Inr ZeroValue"
    by auto
  then obtain h' s' where "value_Elem scenario_store (ReflectValue nil_ptr) = Inr (h', s')"
    and "value_Value s' h' = Inr ZeroValue"
    by blast
  with inv [of s' h'] v r nil show ?thesis by blast
qed

text \<open>
  C2, as the specification states it, fails. In the scenario, one call of \<open>Elem()\<close>
  on the handle for \<open>''a''\<close>, which has no cached element, caches the pointer stored
  under the key and stops there: the returned handle still addresses that pointer and
  its kind is still Ptr, as before the call. The record one level deeper, which
  dereferencing the cached copy would reach, is not what the handle addresses.
\<close>

theorem Elem_without_cache_counterexample:
  "mapEntry_Elem scenario_store entry_a
     = Inr (entry_a\<lparr>elem := Some 0\<rparr>, scenario_store\<lparr>cells := [ptr_a]\<rparr>)
   \<and> mapEntry_Value (scenario_store\<lparr>cells := [ptr_a]\<rparr>) (entry_a\<lparr>elem := Some 0\<rparr>) = Inr ptr_a
   \<and> mapEntry_Kind scenario_store entry_a = Inr KPtr
   \<and> mapEntry_Kind (scenario_store\<lparr>cells := [ptr_a]\<rparr>) (entry_a\<lparr>elem := Some 0\<rparr>) = Inr KPtr
   \<and> Value_Elem scenario_store ptr_a = Inr (Val Record (Addr (0, [])) False)
   \<and> ptr_a \<noteq> Val Record (Addr (0, [])) False"
proof -
  have mi: "Value_MapIndex scenario_store scenario_M (Val TString (Copy (VString ''a'')) False) = Inr ptr_a"
    by (simp add: Value_MapIndex_def scenario_M_def scenario_store_def assignTo_def mapaccess_def
        flag_ro_def ptr_a_def)
  have "mapEntry_Elem scenario_store entry_a
     = Inr (entry_a\<lparr>elem := Some 0\<rparr>, scenario_store\<lparr>cells := [ptr_a]\<rparr>)"
    using mi by (simp add: mapEntry_Elem_def address_of_def entry_a_def scenario_store_def)
  moreover have "mapEntry_Value (scenario_store\<lparr>cells := [ptr_a]\<rparr>) (entry_a\<lparr>elem := Some 0\<rparr>) = Inr ptr_a"
    by (simp add: mapEntry_Value_def deref_def)
  moreover have "mapEntry_Kind (scenario_store\<lparr>cells := [ptr_a]\<rparr>) (entry_a\<lparr>elem := Some 0\<rparr>) = Inr KPtr"
    by (simp add: mapEntry_Kind_def mapEntry_Type_def deref_def ptr_a_def Value_Type_def)
  moreover have "mapEntry_Kind scenario_store entry_a = Inr KPtr"
    by (simp add: mapEntry_Kind_def mapEntry_Type_def entry_a_def scenario_M_def Value_Type_def)
  moreover have "Value_Elem scenario_store ptr_a = Inr (Val Record (Addr (0, [])) False)"
    by (simp add: Value_Elem_def ptr_a_def)
  moreover have "ptr_a \<noteq> Val Record (Addr (0, [])) False"
    by (simp add: ptr_a_def)
  ultimately show ?thesis by simp
qed

text \<open>
  C2, amended. For every Mapping Entry Reference with no cached element on which
  \<^verbatim>\<open>host.MapIndex(key)\<close> returns a value \<open>e\<close>, a single call of \<open>Elem()\<close> only
  materializes the cache: it returns the same entry (same host, key and name) with
  \<open>e\<close> in a new cell, so \<open>Value()\<close> of the returned handle is \<open>e\<close> itself, not
  dereferenced. The dereference is the work of the next call: on the returned handle
  \<open>Elem()\<close> replaces the cache by \<^verbatim>\<open>e.Elem()\<close>.
\<close>

theorem Elem_without_cache:
  assumes "elem h = None" and "Value_MapIndex s (host h) (key h) = Inr e"
  shows "mapEntry_Elem s h = Inr (h\<lparr>elem := Some (length (cells s))\<rparr>, s\<lparr>cells := cells s @ [e]\<rparr>)
         \<and> mapEntry_Value (s\<lparr>cells := cells s @ [e]\<rparr>) (h\<lparr>elem := Some (length (cells s))\<rparr>) = Inr e
         \<and> mapEntry_Elem (s\<lparr>cells := cells s @ [e]\<rparr>) (h\<lparr>elem := Some (length (cells s))\<rparr>)
             = (case Value_Elem s e of
                  Inl x \<Rightarrow> Inl x
                | Inr d \<Rightarrow> Inr (h\<lparr>elem := Some (Suc (length (cells s)))\<rparr>, s\<lparr>cells := cells s @ [e, d]\<rparr>))"
proof -
  have "mapEntry_Elem s h = Inr (h\<lparr>elem := Some (length (cells s))\<rparr>, s\<lparr>cells := cells s @ [e]\<rparr>)"
    using assms by (simp add: mapEntry_Elem_def address_of_def)
  moreover have "mapEntry_Value (s\<lparr>cells := cells s @ [e]\<rparr>) (h\<lparr>elem := Some (length (cells s))\<rparr>) = Inr e"
    by (simp add: mapEntry_Value_def)
  moreover have "mapEntry_Elem (s\<lparr>cells := cells s @ [e]\<rparr>) (h\<lparr>elem := Some (length (cells s))\<rparr>)
             = (case Value_Elem s e of
                  Inl x \<Rightarrow> Inl x
                | Inr d \<Rightarrow> Inr (h\<lparr>elem := Some (Suc (length (cells s)))\<rparr>, s\<lparr>cells := cells s @ [e, d]\<rparr>))"
    by (cases "Value_Elem s e") (simp_all add: mapEntry_Elem_def address_of_def)
  ultimately show ?thesis by simp
qed

theorem Elem_without_cache_witness:
  "elem entry_a = None
   \<and> Value_MapIndex scenario_store (host entry_a) (key entry_a) = Inr ptr_a
   \<and> mapEntry_Elem scenario_store entry_a
       = Inr (entry_a\<lparr>elem := Some 0\<rparr>, scenario_store\<lparr>cells := [ptr_a]\<rparr>)
   \<and> mapEntry_Value (scenario_store\<lparr>cells := [ptr_a]\<rparr>) (entry_a\<lparr>elem := Some 0\<rparr>) = Inr ptr_a
   \<and> mapEntry_Elem (scenario_store\<lparr>cells := [ptr_a]\<rparr>) (entry_a\<lparr>elem := Some 0\<rparr>)
       = Inr (entry_a\<lparr>elem := Some 1\<rparr>,
              scenario_store\<lparr>cells := [ptr_a, Val Record (Addr (0, [])) False]\<rparr>)"
proof -
  have e: "elem entry_a = None" by (simp add: entry_a_def)
  have mi: "Value_MapIndex scenario_store (host entry_a) (key entry_a) = Inr ptr_a"
    by (simp add: entry_a_def Value_MapIndex_def scenario_M_def scenario_store_def assignTo_def
        mapaccess_def flag_ro_def ptr_a_def)
  have c: "cells scenario_store = []" by (simp add: scenario_store_def)
  have d: "Value_Elem scenario_store ptr_a = Inr (Val Record (Addr (0, [])) False)"
    by (simp add: Value_Elem_def ptr_a_def)
  show ?thesis using e mi Elem_without_cache [OF e mi] by (simp add: c d)
qed

text \<open>
  C10. The methods of \<^verbatim>\<open>mapEntry\<close> take the receiver by value, and \<^verbatim>\<open>Set\<close> and
  \<^verbatim>\<open>Elem\<close> assign a new address to \<^verbatim>\<open>elem\<close> in their copy, never writing through
  the old one. So for every handle \<open>h\<close> on which \<open>Value()\<close> returns: the handle
  that \<open>Set(v)\<close> or \<open>Elem()\<close> returns has the host, key and name of \<open>h\<close> and a
  freshly allocated cell as cache, different from the cache pointer of \<open>h\<close>; the
  cells that existed before the call are unchanged; and \<open>h\<close> itself, used after the
  call, still reads what it read before (after \<open>Set\<close>: when it had a cache; without
  one it reads the mapping).
\<close>

theorem value_receiver_frame:
  assumes "mapEntry_Value s h = Inr c"
  shows "(mapEntry_Set s h v = Inr (h1, s1) \<longrightarrow>
            host h1 = host h \<and> key h1 = key h \<and> name h1 = name h
            \<and> elem h1 = Some (length (cells s)) \<and> elem h1 \<noteq> elem h
            \<and> cells s1 = cells s @ [v] \<and> vars s1 = vars s
            \<and> (elem h = None \<or> mapEntry_Value s1 h = Inr c))
         \<and> (mapEntry_Elem s h = Inr (h2, s2) \<longrightarrow>
            host h2 = host h \<and> key h2 = key h \<and> name h2 = name h
            \<and> elem h2 = Some (length (cells s)) \<and> elem h2 \<noteq> elem h
            \<and> take (length (cells s)) (cells s2) = cells s \<and> vars s2 = vars s \<and> hmaps s2 = hmaps s
            \<and> mapEntry_Value s2 h = Inr c)"
proof (intro conjI impI)
  have old: "a < length (cells s) \<and> deref s a = Inr c" if "elem h = Some a" for a
    using that assms by (auto simp: mapEntry_Value_def dest: deref_allocated)
  then have fresh: "Some (length (cells s)) \<noteq> elem h"
    by (cases "elem h") auto
  {
    assume set: "mapEntry_Set s h v = Inr (h1, s1)"
    then have h1: "h1 = h\<lparr>elem := Some (length (cells s))\<rparr>"
      and smi: "Value_SetMapIndex (s\<lparr>cells := cells s @ [v]\<rparr>) (host h) (key h) v = Inr s1"
      by (auto simp: mapEntry_Set_def address_of_def split: sum.splits)
    from smi have fr: "vars s1 = vars s \<and> cells s1 = cells s @ [v]"
      by (auto dest: Value_SetMapIndex_frame)
    show "host h1 = host h" "key h1 = key h" "name h1 = name h"
      "elem h1 = Some (length (cells s))" by (simp_all add: h1)
    show "elem h1 \<noteq> elem h" using fresh by (simp add: h1)
    show "cells s1 = cells s @ [v]" "vars s1 = vars s" using fr by simp_all
    show "elem h = None \<or> mapEntry_Value s1 h = Inr c"
    proof (cases "elem h")
      case None
      then show ?thesis by simp
    next
      case (Some a)
      with old have "a < length (cells s)" "cells s ! a = c"
        by (auto simp: deref_def)
      then have "deref s1 a = Inr c" using fr by (simp add: deref_def nth_append)
      with Some show ?thesis by (simp add: mapEntry_Value_def)
    qed
  }
  {
    assume el: "mapEntry_Elem s h = Inr (h2, s2)"
    then obtain e where h2: "h2 = h\<lparr>elem := Some (length (cells s))\<rparr>"
      and s2: "s2 = s\<lparr>cells := cells s @ [e]\<rparr>"
      by (auto simp: mapEntry_Elem_def address_of_def split: sum.splits)
    show "host h2 = host h" "key h2 = key h" "name h2 = name h"
      "elem h2 = Some (length (cells s))" by (simp_all add: h2)
    show "elem h2 \<noteq> elem h" using fresh by (simp add: h2)
    show "take (length (cells s)) (cells s2) = cells s" "vars s2 = vars s" "hmaps s2 = hmaps s"
      by (simp_all add: s2)
    show "mapEntry_Value s2 h = Inr c"
    proof (cases "elem h")
      case None
      with assms show ?thesis by (simp add: mapEntry_Value_def s2)
    next
      case (Some a)
      with old have "deref s a = Inr c" by simp
      then have "deref s2 a = Inr c" unfolding s2 by (rule deref_old_cell)
      with Some show ?thesis by (simp add: mapEntry_Value_def)
    qed
  }
qed


theorem value_receiver_frame_witness:
  "mapEntry_Value (scenario_store\<lparr>cells := [ptr_a]\<rparr>) (entry_a\<lparr>elem := Some 0\<rparr>) = Inr ptr_a
   \<and> (\<exists>h1 s1. mapEntry_Set (scenario_store\<lparr>cells := [ptr_a]\<rparr>) (entry_a\<lparr>elem := Some 0\<rparr>) nil_ptr = Inr (h1, s1)
         \<and> elem h1 = Some 1 \<and> cells s1 = [ptr_a, nil_ptr]
         \<and> mapEntry_Value s1 h1 = Inr nil_ptr
         \<and> mapEntry_Value s1 (entry_a\<lparr>elem := Some 0\<rparr>) = Inr ptr_a)
   \<and> (\<exists>h2 s2. mapEntry_Elem (scenario_store\<lparr>cells := [ptr_a]\<rparr>) (entry_a\<lparr>elem := Some 0\<rparr>) = Inr (h2, s2)
         \<and> elem h2 = Some 1
         \<and> mapEntry_Value s2 h2 = Inr (Val Record (Addr (0, [])) False)
         \<and> mapEntry_Value s2 (entry_a\<lparr>elem := Some 0\<rparr>) = Inr ptr_a)"
proof -
  let ?s = "scenario_store\<lparr>cells := [ptr_a]\<rparr>"
  let ?h = "entry_a\<lparr>elem := Some 0\<rparr>"
  have v: "mapEntry_Value ?s ?h = Inr ptr_a"
    by (simp add: mapEntry_Value_def deref_def)
  have "\<exists>r. mapEntry_Set ?s ?h nil_ptr = Inr r"
    by (simp add: mapEntry_Set_def address_of_def entry_a_def scenario_M_def nil_ptr_def scenario_store_def
        Value_SetMapIndex_def Value_IsValid_def flag_ro_def assignTo_def mapassign_def)
  then obtain h1 s1 where set: "mapEntry_Set ?s ?h nil_ptr = Inr (h1, s1)" by force
  have "\<exists>r. mapEntry_Elem ?s ?h = Inr r"
    by (simp add: mapEntry_Elem_def address_of_def deref_def ptr_a_def Value_Elem_def scenario_store_def)
  then obtain h2 s2 where el: "mapEntry_Elem ?s ?h = Inr (h2, s2)" by force
  note fr = value_receiver_frame [OF v, of nil_ptr h1 s1 h2 s2]
  have c1: "mapEntry_Value s1 h1 = Inr nil_ptr"
    using fr set by (simp add: mapEntry_Value_def deref_def)
  have "s2 = ?s\<lparr>cells := [ptr_a, Val Record (Addr (0, [])) False]\<rparr>"
    using el by (simp add: mapEntry_Elem_def address_of_def deref_def ptr_a_def Value_Elem_def scenario_store_def)
  then have c2: "mapEntry_Value s2 h2 = Inr (Val Record (Addr (0, [])) False)"
    using fr el by (simp add: mapEntry_Value_def deref_def)
  show ?thesis using v fr set el c1 c2 by simp
qed

text \<open>
  C3, as the specification states it, fails: \<open>Set\<close> does not update the cached-element
  pointer of the handle it is called on. In the scenario, a handle for \<open>''a''\<close> that
  caches the stored pointer is written with a nil pointer: the returned handle reads
  nil, while the handle \<open>Set\<close> was called on keeps its cell and still reads the old
  pointer. And the handle for \<open>''n''\<close> in the mapping to \<^verbatim>\<open>interface{}\<close>, which has no
  cache, still has none after \<open>Set\<close> of an int: its \<open>Type()\<close> is the static
  \<^verbatim>\<open>interface{}\<close>, read from the host, while the returned handle has type int.
\<close>

theorem Set_receiver_counterexample:
  "mapEntry_Set (scenario_store\<lparr>cells := [ptr_a]\<rparr>) (entry_a\<lparr>elem := Some 0\<rparr>) nil_ptr
     = Inr (entry_a\<lparr>elem := Some 1\<rparr>,
            scenario_store\<lparr>cells := [ptr_a, nil_ptr],
              hmaps := (hmaps scenario_store)(0 \<mapsto> [(VString ''a'', VPtr None)])\<rparr>)
   \<and> mapEntry_Value (scenario_store\<lparr>cells := [ptr_a, nil_ptr],
              hmaps := (hmaps scenario_store)(0 \<mapsto> [(VString ''a'', VPtr None)])\<rparr>)
         (entry_a\<lparr>elem := Some 1\<rparr>) = Inr nil_ptr
   \<and> elem (entry_a\<lparr>elem := Some 0\<rparr>) = Some 0
   \<and> mapEntry_Value (scenario_store\<lparr>cells := [ptr_a, nil_ptr],
              hmaps := (hmaps scenario_store)(0 \<mapsto> [(VString ''a'', VPtr None)])\<rparr>)
         (entry_a\<lparr>elem := Some 0\<rparr>) = Inr ptr_a
   \<and> ptr_a \<noteq> nil_ptr
   \<and> mapEntry_Set scenario_store entry_n (Val TInt (Copy (VInt 7)) False)
     = Inr (entry_n\<lparr>elem := Some 0\<rparr>,
            scenario_store\<lparr>cells := [Val TInt (Copy (VInt 7)) False],
              hmaps := (hmaps scenario_store)(1 \<mapsto> [(VString ''n'', VIface (Some (TInt, VInt 7)))])\<rparr>)
   \<and> elem entry_n = None
   \<and> mapEntry_Type (scenario_store\<lparr>cells := [Val TInt (Copy (VInt 7)) False],
              hmaps := (hmaps scenario_store)(1 \<mapsto> [(VString ''n'', VIface (Some (TInt, VInt 7)))])\<rparr>)
         entry_n = Inr TInterface
   \<and> mapEntry_Type (scenario_store\<lparr>cells := [Val TInt (Copy (VInt 7)) False],
              hmaps := (hmaps scenario_store)(1 \<mapsto> [(VString ''n'', VIface (Some (TInt, VInt 7)))])\<rparr>)
         (entry_n\<lparr>elem := Some 0\<rparr>) = Inr TInt"
proof -
  have "mapEntry_Set (scenario_store\<lparr>cells := [ptr_a]\<rparr>) (entry_a\<lparr>elem := Some 0\<rparr>) nil_ptr
     = Inr (entry_a\<lparr>elem := Some 1\<rparr>,
            scenario_store\<lparr>cells := [ptr_a, nil_ptr],
              hmaps := (hmaps scenario_store)(0 \<mapsto> [(VString ''a'', VPtr None)])\<rparr>)"
    by (simp add: mapEntry_Set_def address_of_def entry_a_def scenario_M_def nil_ptr_def
        scenario_store_def Value_SetMapIndex_def Value_IsValid_def flag_ro_def assignTo_def
        mapassign_def)
  moreover have "mapEntry_Value (scenario_store\<lparr>cells := [ptr_a, nil_ptr],
              hmaps := (hmaps scenario_store)(0 \<mapsto> [(VString ''a'', VPtr None)])\<rparr>)
         (entry_a\<lparr>elem := Some 1\<rparr>) = Inr nil_ptr"
    by (simp add: mapEntry_Value_def deref_def)
  moreover have "mapEntry_Value (scenario_store\<lparr>cells := [ptr_a, nil_ptr],
              hmaps := (hmaps scenario_store)(0 \<mapsto> [(VString ''a'', VPtr None)])\<rparr>)
         (entry_a\<lparr>elem := Some 0\<rparr>) = Inr ptr_a"
    by (simp add: mapEntry_Value_def deref_def)
  moreover have "ptr_a \<noteq> nil_ptr" by (simp add: ptr_a_def nil_ptr_def)
  moreover have "mapEntry_Set scenario_store entry_n (Val TInt (Copy (VInt 7)) False)
     = Inr (entry_n\<lparr>elem := Some 0\<rparr>,
            scenario_store\<lparr>cells := [Val TInt (Copy (VInt 7)) False],
              hmaps := (hmaps scenario_store)(1 \<mapsto> [(VString ''n'', VIface (Some (TInt, VInt 7)))])\<rparr>)"
    by (simp add: mapEntry_Set_def address_of_def entry_n_def scenario_I_def
        scenario_store_def Value_SetMapIndex_def Value_IsValid_def flag_ro_def assignTo_def
        mapassign_def)
  moreover have "elem entry_n = None" by (simp add: entry_n_def)
  moreover have "mapEntry_Type (scenario_store\<lparr>cells := [Val TInt (Copy (VInt 7)) False],
              hmaps := (hmaps scenario_store)(1 \<mapsto> [(VString ''n'', VIface (Some (TInt, VInt 7)))])\<rparr>)
         entry_n = Inr TInterface"
    by (simp add: mapEntry_Type_def entry_n_def scenario_I_def Value_Type_def)
  moreover have "mapEntry_Type (scenario_store\<lparr>cells := [Val TInt (Copy (VInt 7)) False],
              hmaps := (hmaps scenario_store)(1 \<mapsto> [(VString ''n'', VIface (Some (TInt, VInt 7)))])\<rparr>)
         (entry_n\<lparr>elem := Some 0\<rparr>) = Inr TInt"
    by (simp add: mapEntry_Type_def deref_def Value_Type_def)
  ultimately show ?thesis by simp
qed

text \<open>
  C3, amended. For every Mapping Entry Reference on an allocated mapping, with an
  exported key assignable to the key type and hashable, and every valid exported value
  \<open>v\<close> assignable to the element type: \<open>Set(v)\<close> returns; reading the mapping through
  host and key then yields \<open>v\<close> as a value of the element type; the handle that
  \<open>Set\<close> returns caches \<open>v\<close> in a new cell; and \<open>Value()\<close>, \<open>Interface()\<close> and
  \<open>Type()\<close> on the returned handle yield \<open>v\<close>, \<open>v.Interface()\<close> and the type of
  \<open>v\<close> whatever the map objects of the store hold, that is, without reading the
  mapping.
\<close>

theorem entry_Set_then_read_cache:
  assumes "host h = Val (TMap kt et) htg False"
    and "target_read s htg = Inr (VMap (Some a))"
    and "hmaps s a = Some al"
    and "key h = Val tk ktg False"
    and "assignTo s (key h) kt = Inr k"
    and "hashable k"
    and "assignTo s (Val tv vtg False) et = Inr w"
  shows "\<exists>h' s'. mapEntry_Set s h (Val tv vtg False) = Inr (h', s')
           \<and> Value_MapIndex s' (host h) (key h) = Inr (Val et (Copy w) False)
           \<and> elem h' = Some (length (cells s))
           \<and> deref s' (length (cells s)) = Inr (Val tv vtg False)
           \<and> (\<forall>m. mapEntry_Value (s'\<lparr>hmaps := m\<rparr>) h' = Inr (Val tv vtg False)
                  \<and> mapEntry_Interface (s'\<lparr>hmaps := m\<rparr>) h' = Value_Interface s (Val tv vtg False)
                  \<and> mapEntry_Type (s'\<lparr>hmaps := m\<rparr>) h' = Inr tv)"
proof -
  let ?v = "Val tv vtg False"
  let ?h' = "h\<lparr>elem := Some (length (cells s))\<rparr>"
  let ?s' = "s\<lparr>cells := cells s @ [?v], hmaps := (hmaps s)(a \<mapsto> AList.update k w al)\<rparr>"
  have set: "mapEntry_Set s h ?v = Inr (?h', ?s')"
    using assms by (rule entry_Set_assign)
  have rd: "target_read ?s' htg = Inr (VMap (Some a))"
    using assms(2) target_read_cong [of ?s' s htg] by simp
  have ak: "assignTo ?s' (key h) kt = Inr k"
    using assms(5) assignTo_cong [of ?s' s "key h" kt] by simp
  have acc: "mapaccess ?s' (Some a) k = Inr (Some w)"
    using assms(6) by (simp add: mapaccess_def update_conv')
  have mi: "Value_MapIndex ?s' (host h) (key h) = Inr (Val et (Copy w) False)"
    using Value_MapIndex_found [OF assms(1) rd ak acc] assms(4) by (simp add: flag_ro_def)
  have d: "deref (?s'\<lparr>hmaps := m\<rparr>) (length (cells s)) = Inr ?v" for m
    by (simp add: deref_def)
  have i: "Value_Interface (?s'\<lparr>hmaps := m\<rparr>) ?v = Value_Interface s ?v" for m
    by (rule Value_Interface_cong) simp
  have "mapEntry_Value (?s'\<lparr>hmaps := m\<rparr>) ?h' = Inr ?v
        \<and> mapEntry_Interface (?s'\<lparr>hmaps := m\<rparr>) ?h' = Value_Interface s ?v
        \<and> mapEntry_Type (?s'\<lparr>hmaps := m\<rparr>) ?h' = Inr tv" for m
    using d [of m] i [of m]
    by (simp add: mapEntry_Value_def mapEntry_Interface_def mapEntry_Type_def Value_Type_def)
  moreover have "deref ?s' (length (cells s)) = Inr ?v" by (simp add: deref_def)
  ultimately show ?thesis using set mi by auto
qed

theorem entry_Set_then_read_cache_witness:
  "host entry_n = Val (TMap TString TInterface) (Copy (VMap (Some 1))) False
   \<and> target_read scenario_store (Copy (VMap (Some 1))) = Inr (VMap (Some 1))
   \<and> hmaps scenario_store 1 = Some [(VString ''n'', VIface (Some (TInt, VInt 3)))]
   \<and> key entry_n = Val TString (Copy (VString ''n'')) False
   \<and> assignTo scenario_store (key entry_n) TString = Inr (VString ''n'')
   \<and> hashable (VString ''n'')
   \<and> assignTo scenario_store (Val TInt (Copy (VInt 7)) False) TInterface = Inr (VIface (Some (TInt, VInt 7)))
   \<and> (\<exists>h' s'. mapEntry_Set scenario_store entry_n (Val TInt (Copy (VInt 7)) False) = Inr (h', s')
         \<and> Value_MapIndex s' (host entry_n) (key entry_n)
             = Inr (Val TInterface (Copy (VIface (Some (TInt, VInt 7)))) False)
         \<and> mapEntry_Value s' h' = Inr (Val TInt (Copy (VInt 7)) False)
         \<and> mapEntry_Interface s' h' = Inr (Some (TInt, VInt 7))
         \<and> mapEntry_Type s' h' = Inr TInt)"
proof -
  have a1: "host entry_n = Val (TMap TString TInterface) (Copy (VMap (Some 1))) False"
    by (simp add: entry_n_def scenario_I_def)
  have a2: "target_read scenario_store (Copy (VMap (Some 1))) = Inr (VMap (Some 1))" by simp
  have a3: "hmaps scenario_store 1 = Some [(VString ''n'', VIface (Some (TInt, VInt 3)))]"
    by (simp add: scenario_store_def)
  have a4: "key entry_n = Val TString (Copy (VString ''n'')) False" by (simp add: entry_n_def)
  have a5: "assignTo scenario_store (key entry_n) TString = Inr (VString ''n'')"
    by (simp add: a4 assignTo_def)
  have a6: "hashable (VString ''n'')" by simp
  have a7: "assignTo scenario_store (Val TInt (Copy (VInt 7)) False) TInterface = Inr (VIface (Some (TInt, VInt 7)))"
    by (simp add: assignTo_def)
  have i: "Value_Interface scenario_store (Val TInt (Copy (VInt 7)) False) = Inr (Some (TInt, VInt 7))"
    by (simp add: Value_Interface_def)
  from entry_Set_then_read_cache [OF a1 a2 a3 a4 a5 a6 a7]
  obtain h' s' where set: "mapEntry_Set scenario_store entry_n (Val TInt (Copy (VInt 7)) False) = Inr (h', s')"
    and mi: "Value_MapIndex s' (host entry_n) (key entry_n) = Inr (Val TInterface (Copy (VIface (Some (TInt, VInt 7)))) False)"
    and rd: "\<forall>m. mapEntry_Value (s'\<lparr>hmaps := m\<rparr>) h' = Inr (Val TInt (Copy (VInt 7)) False)
                  \<and> mapEntry_Interface (s'\<lparr>hmaps := m\<rparr>) h' = Value_Interface scenario_store (Val TInt (Copy (VInt 7)) False)
                  \<and> mapEntry_Type (s'\<lparr>hmaps := m\<rparr>) h' = Inr TInt"
    by blast
  from rd [rule_format, of "hmaps s'"] i
  have "mapEntry_Value s' h' = Inr (Val TInt (Copy (VInt 7)) False)
        \<and> mapEntry_Interface s' h' = Inr (Some (TInt, VInt 7))
        \<and> mapEntry_Type s' h' = Inr TInt"
    by simp
  with set mi a1 a2 a3 a4 a5 a6 a7 show ?thesis by blast
qed

text \<open>
  C4. Read-after-write through the owning container. Under the same conditions, with
  the key present or absent beforehand, \<open>Set(v)\<close> returns, and the runtime's lookup of
  the key in the map object the host refers to then finds \<open>v\<close> as a value of the
  element type; the map object is the old one updated at that key, every other map
  object and every variable is unchanged.
\<close>

theorem entry_Set_visible_in_mapping:
  assumes "host h = Val (TMap kt et) htg False"
    and "target_read s htg = Inr (VMap (Some a))"
    and "hmaps s a = Some al"
    and "key h = Val tk ktg False"
    and "assignTo s (key h) kt = Inr k"
    and "hashable k"
    and "assignTo s (Val tv vtg False) et = Inr w"
  shows "\<exists>h' s'. mapEntry_Set s h (Val tv vtg False) = Inr (h', s')
           \<and> target_read s' htg = Inr (VMap (Some a))
           \<and> mapaccess s' (Some a) k = Inr (Some w)
           \<and> hmaps s' = (hmaps s)(a \<mapsto> AList.update k w al)
           \<and> map_of (AList.update k w al) = (map_of al)(k \<mapsto> w)
           \<and> vars s' = vars s"
proof -
  let ?v = "Val tv vtg False"
  let ?h' = "h\<lparr>elem := Some (length (cells s))\<rparr>"
  let ?s' = "s\<lparr>cells := cells s @ [?v], hmaps := (hmaps s)(a \<mapsto> AList.update k w al)\<rparr>"
  have set: "mapEntry_Set s h ?v = Inr (?h', ?s')"
    using assms by (rule entry_Set_assign)
  have rd: "target_read ?s' htg = Inr (VMap (Some a))"
    using assms(2) target_read_cong [of ?s' s htg] by simp
  have acc: "mapaccess ?s' (Some a) k = Inr (Some w)"
    using assms(6) by (simp add: mapaccess_def update_conv')
  show ?thesis using set rd acc by (simp add: update_conv')
qed

theorem entry_Set_visible_in_mapping_witness:
  "host entry_b = Val (TMap TString (TPtr Record)) (Copy (VMap (Some 0))) False
   \<and> target_read scenario_store (Copy (VMap (Some 0))) = Inr (VMap (Some 0))
   \<and> hmaps scenario_store 0 = Some [(VString ''a'', VPtr (Some (0, [])))]
   \<and> key entry_b = Val TString (Copy (VString ''b'')) False
   \<and> assignTo scenario_store (key entry_b) TString = Inr (VString ''b'')
   \<and> hashable (VString ''b'')
   \<and> assignTo scenario_store (Val (TPtr Record) (Copy (VPtr (Some (0, [])))) False) (TPtr Record)
        = Inr (VPtr (Some (0, [])))
   \<and> mapaccess scenario_store (Some 0) (VString ''b'') = Inr None
   \<and> (\<exists>h' s'. mapEntry_Set scenario_store entry_b (Val (TPtr Record) (Copy (VPtr (Some (0, [])))) False) = Inr (h', s')
         \<and> mapaccess s' (Some 0) (VString ''b'') = Inr (Some (VPtr (Some (0, []))))
         \<and> mapaccess s' (Some 0) (VString ''a'') = Inr (Some (VPtr (Some (0, [])))))"
proof -
  have a1: "host entry_b = Val (TMap TString (TPtr Record)) (Copy (VMap (Some 0))) False"
    by (simp add: entry_b_def scenario_M_def)
  have a2: "target_read scenario_store (Copy (VMap (Some 0))) = Inr (VMap (Some 0))" by simp
  have a3: "hmaps scenario_store 0 = Some [(VString ''a'', VPtr (Some (0, [])))]"
    by (simp add: scenario_store_def)
  have a4: "key entry_b = Val TString (Copy (VString ''b'')) False" by (simp add: entry_b_def)
  have a5: "assignTo scenario_store (key entry_b) TString = Inr (VString ''b'')"
    by (simp add: a4 assignTo_def)
  have a6: "hashable (VString ''b'')" by simp
  have a7: "assignTo scenario_store (Val (TPtr Record) (Copy (VPtr (Some (0, [])))) False) (TPtr Record)
        = Inr (VPtr (Some (0, [])))"
    by (simp add: assignTo_def)
  have a8: "mapaccess scenario_store (Some 0) (VString ''b'') = Inr None"
    by (simp add: mapaccess_def a3)
  from entry_Set_visible_in_mapping [OF a1 a2 a3 a4 a5 a6 a7]
  obtain h' s' where set: "mapEntry_Set scenario_store entry_b (Val (TPtr Record) (Copy (VPtr (Some (0, [])))) False) = Inr (h', s')"
    and acc: "mapaccess s' (Some 0) (VString ''b'') = Inr (Some (VPtr (Some (0, []))))"
    and hm: "hmaps s' = (hmaps scenario_store)(0 \<mapsto> AList.update (VString ''b'') (VPtr (Some (0, []))) [(VString ''a'', VPtr (Some (0, [])))])"
    by blast
  have "mapaccess s' (Some 0) (VString ''a'') = Inr (Some (VPtr (Some (0, []))))"
    by (simp add: mapaccess_def hm)
  with set acc a1 a2 a3 a4 a5 a6 a7 a8 show ?thesis by blast
qed

text \<open>
  C1. Chained descent through a mapping. The host is an allocated mapping whose values
  are pointers to a struct, the key is exported, assignable to the key type and
  hashable, field \<open>i\<close> of the struct is exported, the location of that field under
  \<open>l\<close> is allocated, and \<open>x\<close> is a valid value assignable to the field. Then both
  descents return and write through to the mapping:
  \<^item> from a handle with no cached element whose entry holds a pointer to \<open>l\<close>,
    \<open>Elem()\<close> twice: the first call caches the pointer, the second dereferences it;
  \<^item> from a handle that is written with a pointer to \<open>l\<close>, \<open>Set\<close> followed by one
    \<open>Elem()\<close>, which dereferences the cached pointer.

  In both, the handle reached has the host and key of the first one and addresses the
  struct at \<open>l\<close>; setting field \<open>i\<close> of that value through a Direct Reference
  returns; and afterwards the lookup of the key in the original map object still finds
  the pointer to \<open>l\<close>, \<^verbatim>\<open>MapIndex\<close> on the mapping yields it, its \<^verbatim>\<open>Elem\<close> is the
  struct at \<open>l\<close>, and field \<open>i\<close> reads as what \<open>x.Interface()\<close> was.
\<close>

theorem chained_descent_writes_through:
  assumes hst: "host h = Val (TMap kt (TPtr (TStruct fs))) htg False"
    and hrd: "target_read s htg = Inr (VMap (Some a))"
    and hm: "hmaps s a = Some al"
    and ky: "key h = Val tk ktg False"
    and ak: "assignTo s (key h) kt = Inr k"
    and hk: "hashable k"
    and i0: "0 \<le> i" and i1: "i < int (length fs)" and ex: "IsExported (fst (fs ! nat i))"
    and fld: "load s (fst l, snd l @ [nat i]) = Inr old"
    and xi: "Value_Interface s x = Inr w"
    and xt: "Value_Type x = Inr tx"
    and asg: "snd (fs ! nat i) = tx \<or> snd (fs ! nat i) = TInterface"
  shows "(elem h = None \<and> map_of al k = Some (VPtr (Some l)) \<longrightarrow>
           (\<exists>h1 s1 h2 s2 s3.
              mapEntry_Elem s h = Inr (h1, s1) \<and> mapEntry_Elem s1 h1 = Inr (h2, s2)
              \<and> host h2 = host h \<and> key h2 = key h
              \<and> mapEntry_Value s2 h2 = Inr (Val (TStruct fs) (Addr l) False)
              \<and> Value_Field (Val (TStruct fs) (Addr l) False) i
                  = Inr (Val (snd (fs ! nat i)) (Addr (fst l, snd l @ [nat i])) False)
              \<and> reflectValue_Set s2 (Val (snd (fs ! nat i)) (Addr (fst l, snd l @ [nat i])) False) x
                  = Inr (ReflectValue (Val (snd (fs ! nat i)) (Addr (fst l, snd l @ [nat i])) False), s3)
              \<and> mapaccess s3 (Some a) k = Inr (Some (VPtr (Some l)))
              \<and> Value_MapIndex s3 (Val (TMap kt (TPtr (TStruct fs))) (Copy (VMap (Some a))) False)
                    (Val kt (Copy k) False)
                  = Inr (Val (TPtr (TStruct fs)) (Copy (VPtr (Some l))) False)
              \<and> Value_Elem s3 (Val (TPtr (TStruct fs)) (Copy (VPtr (Some l))) False)
                  = Inr (Val (TStruct fs) (Addr l) False)
              \<and> reflectValue_Interface s3 (Val (snd (fs ! nat i)) (Addr (fst l, snd l @ [nat i])) False) = Inr w))
         \<and> (target_read s vtg = Inr (VPtr (Some l)) \<longrightarrow>
           (\<exists>h1 s1 h2 s2 s3.
              mapEntry_Set s h (Val (TPtr (TStruct fs)) vtg False) = Inr (h1, s1)
              \<and> mapEntry_Elem s1 h1 = Inr (h2, s2)
              \<and> host h2 = host h \<and> key h2 = key h
              \<and> mapEntry_Value s2 h2 = Inr (Val (TStruct fs) (Addr l) False)
              \<and> Value_Field (Val (TStruct fs) (Addr l) False) i
                  = Inr (Val (snd (fs ! nat i)) (Addr (fst l, snd l @ [nat i])) False)
              \<and> reflectValue_Set s2 (Val (snd (fs ! nat i)) (Addr (fst l, snd l @ [nat i])) False) x
                  = Inr (ReflectValue (Val (snd (fs ! nat i)) (Addr (fst l, snd l @ [nat i])) False), s3)
              \<and> mapaccess s3 (Some a) k = Inr (Some (VPtr (Some l)))
              \<and> Value_MapIndex s3 (Val (TMap kt (TPtr (TStruct fs))) (Copy (VMap (Some a))) False)
                    (Val kt (Copy k) False)
                  = Inr (Val (TPtr (TStruct fs)) (Copy (VPtr (Some l))) False)
              \<and> Value_Elem s3 (Val (TPtr (TStruct fs)) (Copy (VPtr (Some l))) False)
                  = Inr (Val (TStruct fs) (Addr l) False)
              \<and> reflectValue_Interface s3 (Val (snd (fs ! nat i)) (Addr (fst l, snd l @ [nat i])) False) = Inr w))"
proof (intro conjI impI)
  let ?st = "TStruct fs"
  let ?p = "Val (TPtr ?st) (Copy (VPtr (Some l))) False"
  let ?sv = "Val ?st (Addr l) False"
  let ?ft = "snd (fs ! nat i)"
  let ?f = "Val ?ft (Addr (fst l, snd l @ [nat i])) False"
  have field: "Value_Field ?sv i = Inr ?f"
    using i0 i1 ex by (rule Value_Field_addressable)
  {
    assume "elem h = None \<and> map_of al k = Some (VPtr (Some l))"
    then have none: "elem h = None" and ent: "map_of al k = Some (VPtr (Some l))" by simp_all
    let ?h1 = "h\<lparr>elem := Some (length (cells s))\<rparr>"
    let ?s1 = "s\<lparr>cells := cells s @ [?p]\<rparr>"
    let ?h2 = "h\<lparr>elem := Some (Suc (length (cells s)))\<rparr>"
    let ?s2 = "s\<lparr>cells := cells s @ [?p, ?sv]\<rparr>"
    have acc: "mapaccess s (Some a) k = Inr (Some (VPtr (Some l)))"
      using hm ent hk by (simp add: mapaccess_def)
    have mi: "Value_MapIndex s (host h) (key h) = Inr ?p"
      using Value_MapIndex_found [OF hst hrd ak acc] ky by (simp add: flag_ro_def)
    have e1: "mapEntry_Elem s h = Inr (?h1, ?s1)"
      using none mi by (rule Elem_twice_without_cache(1))
    have e2: "mapEntry_Elem ?s1 ?h1 = Inr (?h2, ?s2)"
      using none mi by (rule Elem_twice_without_cache(2))
    have v: "mapEntry_Value ?s2 ?h2 = Inr ?sv"
      by (simp add: mapEntry_Value_def deref_def nth_append)
    have "\<exists>s3. Value_Set ?s2 ?f x = Inr s3
           \<and> mapaccess s3 (Some a) k = Inr (Some (VPtr (Some l)))
           \<and> Value_MapIndex s3 (Val (TMap kt (TPtr ?st)) (Copy (VMap (Some a))) False) (Val kt (Copy k) False)
               = Inr ?p
           \<and> Value_Elem s3 ?p = Inr ?sv
           \<and> Value_Interface s3 ?f = Inr w"
      using ent hk asg by (intro write_field_then_read_back [where al = al and old = old and tx = tx])
        (simp_all add: hm fld xi xt)
    then obtain s3 where "Value_Set ?s2 ?f x = Inr s3"
      and "mapaccess s3 (Some a) k = Inr (Some (VPtr (Some l)))"
      and "Value_MapIndex s3 (Val (TMap kt (TPtr ?st)) (Copy (VMap (Some a))) False) (Val kt (Copy k) False) = Inr ?p"
      and "Value_Elem s3 ?p = Inr ?sv"
      and "Value_Interface s3 ?f = Inr w"
      by blast
    with e1 e2 v field
    show "\<exists>h1 s1 h2 s2 s3.
              mapEntry_Elem s h = Inr (h1, s1) \<and> mapEntry_Elem s1 h1 = Inr (h2, s2)
              \<and> host h2 = host h \<and> key h2 = key h
              \<and> mapEntry_Value s2 h2 = Inr ?sv
              \<and> Value_Field ?sv i = Inr ?f
              \<and> reflectValue_Set s2 ?f x = Inr (ReflectValue ?f, s3)
              \<and> mapaccess s3 (Some a) k = Inr (Some (VPtr (Some l)))
              \<and> Value_MapIndex s3 (Val (TMap kt (TPtr ?st)) (Copy (VMap (Some a))) False)
                    (Val kt (Copy k) False) = Inr ?p
              \<and> Value_Elem s3 ?p = Inr ?sv
              \<and> reflectValue_Interface s3 ?f = Inr w"
      by (intro exI [of _ ?h1] exI [of _ ?s1] exI [of _ ?h2] exI [of _ ?s2] exI [of _ s3])
        (simp add: reflectValue_Set_def reflectValue_Interface_def)
  }
  {
    assume vrd: "target_read s vtg = Inr (VPtr (Some l))"
    let ?v = "Val (TPtr ?st) vtg False"
    let ?h1 = "h\<lparr>elem := Some (length (cells s))\<rparr>"
    let ?s1 = "s\<lparr>cells := cells s @ [?v], hmaps := (hmaps s)(a \<mapsto> AList.update k (VPtr (Some l)) al)\<rparr>"
    let ?h2 = "h\<lparr>elem := Some (Suc (length (cells s)))\<rparr>"
    let ?s2 = "?s1\<lparr>cells := cells ?s1 @ [?sv]\<rparr>"
    have av: "assignTo s ?v (TPtr ?st) = Inr (VPtr (Some l))"
      using vrd by (simp add: assignTo_def)
    have set: "mapEntry_Set s h ?v = Inr (?h1, ?s1)"
      using hst hrd hm ky ak hk av by (rule entry_Set_assign)
    have "mapEntry_Elem ?s1 ?h1 = Inr (?h1\<lparr>elem := Some (length (cells ?s1))\<rparr>, ?s2)"
      by (rule Elem_with_cached_pointer [where n = "length (cells s)" and tg = vtg])
        (simp_all add: deref_def vrd)
    then have e2: "mapEntry_Elem ?s1 ?h1 = Inr (?h2, ?s2)" by simp
    have v: "mapEntry_Value ?s2 ?h2 = Inr ?sv"
      by (simp add: mapEntry_Value_def deref_def nth_append)
    have "\<exists>s3. Value_Set ?s2 ?f x = Inr s3
           \<and> mapaccess s3 (Some a) k = Inr (Some (VPtr (Some l)))
           \<and> Value_MapIndex s3 (Val (TMap kt (TPtr ?st)) (Copy (VMap (Some a))) False) (Val kt (Copy k) False)
               = Inr ?p
           \<and> Value_Elem s3 ?p = Inr ?sv
           \<and> Value_Interface s3 ?f = Inr w"
      using hk asg
      by (intro write_field_then_read_back [where al = "AList.update k (VPtr (Some l)) al" and old = old and tx = tx])
        (simp_all add: fld xi xt update_conv')
    then obtain s3 where "Value_Set ?s2 ?f x = Inr s3"
      and "mapaccess s3 (Some a) k = Inr (Some (VPtr (Some l)))"
      and "Value_MapIndex s3 (Val (TMap kt (TPtr ?st)) (Copy (VMap (Some a))) False) (Val kt (Copy k) False) = Inr ?p"
      and "Value_Elem s3 ?p = Inr ?sv"
      and "Value_Interface s3 ?f = Inr w"
      by blast
    with set e2 v field
    show "\<exists>h1 s1 h2 s2 s3.
              mapEntry_Set s h ?v = Inr (h1, s1)
              \<and> mapEntry_Elem s1 h1 = Inr (h2, s2)
              \<and> host h2 = host h \<and> key h2 = key h
              \<and> mapEntry_Value s2 h2 = Inr ?sv
              \<and> Value_Field ?sv i = Inr ?f
              \<and> reflectValue_Set s2 ?f x = Inr (ReflectValue ?f, s3)
              \<and> mapaccess s3 (Some a) k = Inr (Some (VPtr (Some l)))
              \<and> Value_MapIndex s3 (Val (TMap kt (TPtr ?st)) (Copy (VMap (Some a))) False)
                    (Val kt (Copy k) False) = Inr ?p
              \<and> Value_Elem s3 ?p = Inr ?sv
              \<and> reflectValue_Interface s3 ?f = Inr w"
      by (intro exI [of _ ?h1] exI [of _ ?s1] exI [of _ ?h2] exI [of _ ?s2] exI [of _ s3])
        (simp add: reflectValue_Set_def reflectValue_Interface_def)
  }
qed


theorem chained_descent_writes_through_witness:
  "host entry_a = Val (TMap TString (TPtr (TStruct [(''Name'', TString)]))) (Copy (VMap (Some 0))) False
   \<and> target_read scenario_store (Copy (VMap (Some 0))) = Inr (VMap (Some 0))
   \<and> hmaps scenario_store 0 = Some [(VString ''a'', VPtr (Some (0, [])))]
   \<and> key entry_a = Val TString (Copy (VString ''a'')) False
   \<and> assignTo scenario_store (key entry_a) TString = Inr (VString ''a'')
   \<and> hashable (VString ''a'')
   \<and> IsExported ''Name''
   \<and> load scenario_store (0, [0]) = Inr (VString ''x'')
   \<and> Value_Interface scenario_store (Val TString (Copy (VString ''y'')) False) = Inr (Some (TString, VString ''y''))
   \<and> Value_Type (Val TString (Copy (VString ''y'')) False) = Inr TString
   \<and> elem entry_a = None
   \<and> map_of [(VString ''a'', VPtr (Some (0, [])))] (VString ''a'') = Some (VPtr (Some (0, [])))
   \<and> target_read scenario_store (Copy (VPtr (Some (0, [])))) = Inr (VPtr (Some (0, [])))
   \<and> (\<exists>h1 s1 h2 s2 s3.
         mapEntry_Elem scenario_store entry_a = Inr (h1, s1) \<and> mapEntry_Elem s1 h1 = Inr (h2, s2)
         \<and> mapEntry_Value s2 h2 = Inr (Val Record (Addr (0, [])) False)
         \<and> reflectValue_Set s2 (Val TString (Addr (0, [0])) False) (Val TString (Copy (VString ''y'')) False)
             = Inr (ReflectValue (Val TString (Addr (0, [0])) False), s3)
         \<and> mapaccess s3 (Some 0) (VString ''a'') = Inr (Some (VPtr (Some (0, []))))
         \<and> reflectValue_Interface s3 (Val TString (Addr (0, [0])) False) = Inr (Some (TString, VString ''y'')))
   \<and> (\<exists>h1 s1 h2 s2 s3.
         mapEntry_Set scenario_store entry_a ptr_a = Inr (h1, s1) \<and> mapEntry_Elem s1 h1 = Inr (h2, s2)
         \<and> mapEntry_Value s2 h2 = Inr (Val Record (Addr (0, [])) False)
         \<and> reflectValue_Set s2 (Val TString (Addr (0, [0])) False) (Val TString (Copy (VString ''y'')) False)
             = Inr (ReflectValue (Val TString (Addr (0, [0])) False), s3)
         \<and> mapaccess s3 (Some 0) (VString ''a'') = Inr (Some (VPtr (Some (0, []))))
         \<and> reflectValue_Interface s3 (Val TString (Addr (0, [0])) False) = Inr (Some (TString, VString ''y'')))"
proof -
  let ?x = "Val TString (Copy (VString ''y'')) False"
  have a1: "host entry_a = Val (TMap TString (TPtr (TStruct [(''Name'', TString)]))) (Copy (VMap (Some 0))) False"
    by (simp add: entry_a_def scenario_M_def Record_def)
  have a2: "target_read scenario_store (Copy (VMap (Some 0))) = Inr (VMap (Some 0))" by simp
  have a3: "hmaps scenario_store 0 = Some [(VString ''a'', VPtr (Some (0, [])))]"
    by (simp add: scenario_store_def)
  have a4: "key entry_a = Val TString (Copy (VString ''a'')) False" by (simp add: entry_a_def)
  have a5: "assignTo scenario_store (key entry_a) TString = Inr (VString ''a'')"
    by (simp add: a4 assignTo_def)
  have a6: "hashable (VString ''a'')" by simp
  have a7: "(0::int) \<le> 0" by simp
  have a8: "(0::int) < int (length [(''Name'', TString)])" by simp
  have ex: "IsExported ''Name''" by (simp add: IsExported_def)
  then have a9: "IsExported (fst ([(''Name'', TString)] ! nat 0))" by simp
  have ld: "load scenario_store (0, [0]) = Inr (VString ''x'')"
    by (simp add: load_def scenario_store_def)
  then have a10: "load scenario_store (fst (0, []), snd (0, []) @ [nat 0]) = Inr (VString ''x'')" by simp
  have a11: "Value_Interface scenario_store ?x = Inr (Some (TString, VString ''y''))"
    by (simp add: Value_Interface_def)
  have a12: "Value_Type ?x = Inr TString" by (simp add: Value_Type_def)
  have a13: "snd ([(''Name'', TString)] ! nat 0) = TString \<or> snd ([(''Name'', TString)] ! nat 0) = TInterface"
    by simp
  have b1: "elem entry_a = None" by (simp add: entry_a_def)
  have b2: "map_of [(VString ''a'', VPtr (Some (0, [])))] (VString ''a'') = Some (VPtr (Some (0, [])))"
    by simp
  have b3: "target_read scenario_store (Copy (VPtr (Some (0, [])))) = Inr (VPtr (Some (0, [])))" by simp
  note th = chained_descent_writes_through [OF a1 a2 a3 a4 a5 a6 a7 a8 a9 a10 a11 a12 a13,
      of "Copy (VPtr (Some (0, [])))"]
  from th b1 b2 have pa: "\<exists>h1 s1 h2 s2 s3.
         mapEntry_Elem scenario_store entry_a = Inr (h1, s1) \<and> mapEntry_Elem s1 h1 = Inr (h2, s2)
         \<and> mapEntry_Value s2 h2 = Inr (Val Record (Addr (0, [])) False)
         \<and> reflectValue_Set s2 (Val TString (Addr (0, [0])) False) ?x
             = Inr (ReflectValue (Val TString (Addr (0, [0])) False), s3)
         \<and> mapaccess s3 (Some 0) (VString ''a'') = Inr (Some (VPtr (Some (0, []))))
         \<and> reflectValue_Interface s3 (Val TString (Addr (0, [0])) False) = Inr (Some (TString, VString ''y''))"
    by (simp add: Record_def) blast
  from th b3 have pb: "\<exists>h1 s1 h2 s2 s3.
         mapEntry_Set scenario_store entry_a ptr_a = Inr (h1, s1) \<and> mapEntry_Elem s1 h1 = Inr (h2, s2)
         \<and> mapEntry_Value s2 h2 = Inr (Val Record (Addr (0, [])) False)
         \<and> reflectValue_Set s2 (Val TString (Addr (0, [0])) False) ?x
             = Inr (ReflectValue (Val TString (Addr (0, [0])) False), s3)
         \<and> mapaccess s3 (Some 0) (VString ''a'') = Inr (Some (VPtr (Some (0, []))))
         \<and> reflectValue_Interface s3 (Val TString (Addr (0, [0])) False) = Inr (Some (TString, VString ''y''))"
    by (simp add: Record_def ptr_a_def) blast
  show ?thesis using a1 a2 a3 a4 a5 a6 ex ld a11 a12 b1 b2 b3 pa pb by blast
qed

end
